theory Spec2Isabelle
  imports Main "HOL-Library.Multiset"
begin

section \<open>Python strings\<close>

text \<open>
  A Python \<open>str\<close> is a sequence of Unicode code points; \<open>len\<close>, indexing, \<open>in\<close> and
  \<open>startswith\<close> all count code points. A string is therefore a list of code points, each
  a natural number.
\<close>

type_synonym ustr = "nat list"

definition star :: nat where
  \<comment> \<open>the mask character U+FF0A (full-width asterisk) of \<open>_get_hint\<close>\<close>
  "star = 65290"

definition note_emoji :: nat where
  \<comment> \<open>the join signal U+1F3B6 (musical notes)\<close>
  "note_emoji = 127926"

definition py_isspace :: "nat \<Rightarrow> bool" where
  \<comment> \<open>the code points \<open>str.strip()\<close> removes: those with \<open>str.isspace()\<close> true\<close>
  "py_isspace c =
     ((9 \<le> c \<and> c \<le> 13) \<or> (28 \<le> c \<and> c \<le> 32) \<or> c = 133 \<or> c = 160 \<or> c = 5760 \<or>
      (8192 \<le> c \<and> c \<le> 8202) \<or> c = 8232 \<or> c = 8233 \<or> c = 8239 \<or> c = 8287 \<or>
      c = 12288)"

definition strip :: "ustr \<Rightarrow> ustr" where
  \<comment> \<open>\<open>s.strip()\<close>: whitespace removed at both ends\<close>
  "strip s = rev (dropWhile py_isspace (rev (dropWhile py_isspace s)))"

definition replace_space :: "ustr \<Rightarrow> ustr" where
  \<comment> \<open>\<open>s.replace(" ", "")\<close>: every U+0020 removed, nothing else\<close>
  "replace_space s = filter (\<lambda>c. c \<noteq> 32) s"

fun startswith :: "ustr \<Rightarrow> ustr \<Rightarrow> bool" where
  \<comment> \<open>\<open>s.startswith(p)\<close>, written \<open>startswith p s\<close>\<close>
  "startswith [] s = True"
| "startswith (p # ps) [] = False"
| "startswith (p # ps) (c # cs) = (p = c \<and> startswith ps cs)"

fun py_in :: "ustr \<Rightarrow> ustr \<Rightarrow> bool" where
  \<comment> \<open>\<open>a in b\<close> on strings: \<open>a\<close> occurs in \<open>b\<close> as a contiguous substring\<close>
  "py_in a [] = (a = [])"
| "py_in a (c # cs) = (startswith a (c # cs) \<or> py_in a cs)"

definition lower_ascii :: "ustr \<Rightarrow> ustr" where
  \<comment> \<open>\<open>str.lower()\<close> on strings whose only cased characters are the ASCII letters
      (CJK ideographs have no case)\<close>
  "lower_ascii s = map (\<lambda>c. if 65 \<le> c \<and> c \<le> 90 then c + 32 else c) s"

section \<open>The hint generator and the answer matcher\<close>

text \<open>
  \<open>_get_hint(song_name, level)\<close>: a list of mask characters as long as the title, whose
  first \<open>min(level, len(song_name))\<close> cells the loop overwrites one by one.
\<close>

fun reveal_loop :: "nat list \<Rightarrow> ustr \<Rightarrow> ustr \<Rightarrow> ustr" where
  \<comment> \<open>\<open>for i in range(revealed): hint[i] = song_name[i]\<close>\<close>
  "reveal_loop [] song_name hint = hint"
| "reveal_loop (i # rest) song_name hint = reveal_loop rest song_name (hint[i := song_name ! i])"

definition get_hint :: "ustr \<Rightarrow> int \<Rightarrow> ustr" where
  "get_hint song_name level =
     (if level \<le> 0 then replicate (length song_name) star
      else
        let revealed = min level (int (length song_name));
            hint = replicate (length song_name) star
        in reveal_loop [0..<nat revealed] song_name hint)"

text \<open>
  \<open>_check_answer(user_input, correct_answer)\<close>. The case mapping of \<open>str.lower()\<close> is
  Unicode's table, which is no part of this program: it is the parameter \<open>lower\<close>.
\<close>

definition check_answer :: "(ustr \<Rightarrow> ustr) \<Rightarrow> ustr \<Rightarrow> ustr \<Rightarrow> bool" where
  "check_answer lower user_input correct_answer =
     (let user_input = replace_space (lower (strip user_input));
          correct_answer = replace_space (lower (strip correct_answer))
      in if user_input = correct_answer then True
         else if py_in correct_answer user_input then True
         else if 2 \<le> length user_input \<and> py_in user_input correct_answer then True
         else False)"

text \<open>
  The matcher as the specification words it: both sides trimmed, case-folded and freed of
  all internal whitespace, then the three-way test.
\<close>

definition spec_normalize :: "(ustr \<Rightarrow> ustr) \<Rightarrow> ustr \<Rightarrow> ustr" where
  "spec_normalize lower s = filter (\<lambda>c. \<not> py_isspace c) (lower (strip s))"

definition spec_match :: "(ustr \<Rightarrow> ustr) \<Rightarrow> ustr \<Rightarrow> ustr \<Rightarrow> bool" where
  "spec_match lower submission title =
     (let u = spec_normalize lower submission; t = spec_normalize lower title
      in u = t \<or> py_in t u \<or> (2 \<le> length u \<and> py_in u t))"

section \<open>The data model\<close>

datatype status = Waiting | Playing | Ended

text \<open>A participant entry \<open>{"name": str, "score": int}\<close> and a song \<open>{id, name, artist}\<close>.\<close>

record participant =
  name :: ustr
  score :: int

record song =
  song_id :: int
  song_name :: ustr
  artist :: ustr

text \<open>
  The dataclass \<open>GameSession\<close>. \<open>participants\<close> is a Python dict, which keeps insertion
  order (the settlement ranks on it): an association list. \<open>current_song\<close> is the empty
  dict or a song. \<open>timeout_task\<close> names a task of the event loop.
\<close>

record session =
  group_id :: ustr
  status :: status
  participants :: "(ustr \<times> participant) list"
  current_song :: "song option"
  hint_level :: int
  round_num :: int
  start_time :: int
  timeout_task :: "nat option"
  umo :: ustr
  creator_id :: ustr
  round_answered :: bool

definition new_session :: "ustr \<Rightarrow> session" where
  \<comment> \<open>\<open>GameSession(group_id=group_id)\<close> with the dataclass defaults\<close>
  "new_session g =
     \<lparr>group_id = g, status = Waiting, participants = [], current_song = None, hint_level = 0,
      round_num = 0, start_time = 0, timeout_task = None, umo = [], creator_id = [],
      round_answered = False\<rparr>"

text \<open>Dict operations on an association list: membership, and \<open>d[k] = v\<close>, which
  overwrites in place or appends.\<close>

definition has_key :: "'k \<Rightarrow> ('k \<times> 'v) list \<Rightarrow> bool" where
  "has_key k d = (k \<in> set (map fst d))"

fun dict_set :: "'k \<Rightarrow> 'v \<Rightarrow> ('k \<times> 'v) list \<Rightarrow> ('k \<times> 'v) list" where
  "dict_set k v [] = [(k, v)]"
| "dict_set k v (p # ps) = (if fst p = k then (k, v) # ps else p # dict_set k v ps)"

text \<open>The durable ledger: one JSON file per group, \<open>{"users": {user_id: entry}}\<close>.\<close>

record entry =
  nickname :: ustr
  total :: int
  wins :: int

text \<open>The configuration read in \<open>__init__\<close>.\<close>

record config =
  round_timeout :: int
  max_rounds :: int
  admin_ids :: "ustr list"
  min_players :: int
  max_players :: int

text \<open>What a handler reads from an inbound event.\<close>

record event =
  ev_group :: ustr
  ev_sender :: ustr
  ev_sender_name :: ustr
  ev_message :: ustr
  ev_umo :: ustr

definition get_group_id :: "event \<Rightarrow> ustr" where
  \<comment> \<open>the group identifier as a string, empty outside a group chat\<close>
  "get_group_id ev = ev_group ev"

definition get_user_info :: "event \<Rightarrow> ustr \<times> ustr" where
  \<comment> \<open>\<open>nickname = event.get_sender_name() or f"..{user_id[-4:]}"\<close>\<close>
  "get_user_info ev =
     (let user_id = ev_sender ev
      in (user_id,
          if ev_sender_name ev = [] then [29992, 25143] @ drop (length user_id - 4) user_id
          else ev_sender_name ev))"

subsection \<open>Outbound messages and other effects\<close>

datatype punishment = Truth | Dare

datatype challenge =
    Nominate "ustr \<times> participant" "ustr \<times> participant" punishment
  | Winner_picks "ustr \<times> participant" "(ustr \<times> participant) list" punishment

datatype message =
    Group_only
  | Waiting_exists nat
  | Playing_exists int int
  | Created ustr
  | Need_create
  | In_progress int int ustr
  | State_abnormal
  | Too_few int
  | Unauthorized_start
  | Starting ustr
  | Game_start nat "ustr list"
  | No_song
  | Round_clip int int song
  | Time_up song
  | Nobody_played
  | Settlement int "(ustr \<times> participant) list" "challenge option"
  | No_game
  | Hint int ustr ustr
  | Admin_only
  | Reveal song
  | Final_answer song
  | Forced_end ustr "song option"
  | Already_joined
  | Roster_full int
  | Joined ustr nat
  | Joined_midgame ustr nat
  | Join_first
  | Correct ustr song int

datatype error = KeyError

datatype effect = Send message | Save_stats ustr | Pick_song | Raise error

subsection \<open>Coroutines\<close>

text \<open>
  Every handler is a coroutine: it runs until it awaits (a delivery, a sleep), other tasks
  run meanwhile, and it goes on from there. A handler is modelled as its segments between
  suspension points; a segment returns what the coroutine does when it is resumed.
  \<open>Then_song\<close> and \<open>Then_arm\<close> keep the session object \<open>_next_round\<close> holds in its local
  variable, and \<open>Then_song\<close> the round number it computed before it awaited the song.
\<close>

datatype cont =
    Done
  | Then_start_game ustr
  | Then_next_round ustr
  | Then_song ustr nat int
  | Then_arm ustr nat
  | Then_end_game ustr
  | Then_del ustr
  | Then_timeout ustr

datatype task_state = Unborn | Alive cont | Cancelled | Finished

text \<open>
  The plugin object, the session objects it refers to, the tasks of the event loop and
  the ledger files. \<open>sessions\<close> maps a group to the address of its session object.
\<close>

record plugin =
  sessions :: "ustr \<rightharpoonup> nat"
  heap :: "nat \<Rightarrow> session"
  next_obj :: nat
  tasks :: "nat \<Rightarrow> task_state"
  next_task :: nat
  stats :: "ustr \<Rightarrow> (ustr \<rightharpoonup> entry)"

definition init :: plugin where
  "init = \<lparr>sessions = Map.empty, heap = (\<lambda>a. new_session []), next_obj = 0,
           tasks = (\<lambda>t. Unborn), next_task = 0, stats = (\<lambda>g. Map.empty)\<rparr>"

text \<open>The values the environment supplies: the song \<open>_get_random_song\<close> returns, the
  outcome of \<open>random.choice\<close> at settlement, and the clock.\<close>

record environ =
  pick :: "song option"
  punish :: punishment
  now :: int

definition session_of :: "plugin \<Rightarrow> ustr \<Rightarrow> session option" where
  \<comment> \<open>\<open>self.sessions.get(group_id)\<close>\<close>
  "session_of s g = map_option (heap s) (sessions s g)"

definition upd :: "nat \<Rightarrow> (session \<Rightarrow> session) \<Rightarrow> plugin \<Rightarrow> plugin" where
  \<comment> \<open>assignment to fields of the session object at an address\<close>
  "upd a f s = s\<lparr>heap := (heap s)(a := f (heap s a))\<rparr>"

definition cancel :: "nat option \<Rightarrow> plugin \<Rightarrow> plugin" where
  \<comment> \<open>\<open>if session.timeout_task: session.timeout_task.cancel()\<close>: a task that is not done
      is cancelled (it ends at the await it is suspended in, or at its next one); a task
      that is done is left as it is\<close>
  "cancel tt s =
     (case tt of
        None \<Rightarrow> s
      | Some t \<Rightarrow>
          (case tasks s t of
             Alive k \<Rightarrow> s\<lparr>tasks := (tasks s)(t := Cancelled)\<rparr>
           | _ \<Rightarrow> s))"

section \<open>Settlement\<close>

definition sorted_scores :: "(ustr \<times> participant) list \<Rightarrow> (ustr \<times> participant) list" where
  \<comment> \<open>\<open>sorted(scores.items(), key=lambda x: x[1].get("score", 0), reverse=True)\<close>:
      Python's sort is stable, also with \<open>reverse=True\<close>; every entry has a score\<close>
  "sorted_scores scores = sort_key (\<lambda>x. - score (snd x)) scores"

definition add_score :: "ustr \<Rightarrow> ustr \<Rightarrow> ustr \<Rightarrow> int \<Rightarrow> plugin \<Rightarrow> plugin" where
  \<comment> \<open>\<open>_add_score\<close>: load the group's file, update the user's entry, save the file\<close>
  "add_score g user_id nick points s =
     (let users = stats s g;
          e = (case users user_id of
                 None \<Rightarrow> \<lparr>nickname = nick, total = 0, wins = 0\<rparr>
               | Some e \<Rightarrow> e);
          e' = e\<lparr>total := total e + points, wins := wins e + 1, nickname := nick\<rparr>
      in s\<lparr>stats := (stats s)(g := users(user_id \<mapsto> e'))\<rparr>)"

fun save_scores :: "ustr \<Rightarrow> (ustr \<times> participant) list \<Rightarrow> plugin \<Rightarrow> plugin \<times> effect list" where
  \<comment> \<open>the loop over the ranking: \<open>if score > 0: self._add_score(group_id, uid, nickname, score)\<close>\<close>
  "save_scores g [] s = (s, [])"
| "save_scores g (x # rest) s =
     (if score (snd x) > 0 then
        (let r = save_scores g rest (add_score g (fst x) (name (snd x)) (score (snd x)) s)
         in (fst r, Save_stats g # snd r))
      else save_scores g rest s)"

definition challenge_of :: "(ustr \<times> participant) list \<Rightarrow> punishment \<Rightarrow> challenge option" where
  \<comment> \<open>the closing prompt: \<open>sorted_scores[0]\<close> wins, \<open>sorted_scores[-1]\<close> has the lowest score\<close>
  "challenge_of ranked p =
     (if 2 \<le> length ranked then
        let winner = hd ranked;
            min_score = score (snd (last ranked));
            losers = filter (\<lambda>x. score (snd x) = min_score) ranked
        in if length losers = 1 then Some (Nominate winner (hd losers) p)
           else Some (Winner_picks winner losers p)
      else None)"

definition end_game_begin :: "environ \<Rightarrow> ustr \<Rightarrow> plugin \<Rightarrow> plugin \<times> effect list \<times> cont" where
  \<comment> \<open>\<open>_end_game\<close> up to the delivery of its message; a non-empty dict has a non-empty
      ranking, so the branch for an empty ranking is never taken\<close>
  "end_game_begin env g s =
     (case sessions s g of
        None \<Rightarrow> (s, [], Done)
      | Some a \<Rightarrow>
          let s1 = cancel (timeout_task (heap s a)) s;
              s2 = upd a (\<lambda>x. x\<lparr>status := Ended\<rparr>) s1;
              scores = participants (heap s2 a)
          in if scores = [] then (s2, [Send Nobody_played], Then_del g)
             else
               let ranked = sorted_scores scores;
                   r = save_scores g ranked s2
               in (fst r,
                   snd r @ [Send (Settlement (round_num (heap s2 a)) ranked
                                     (challenge_of ranked (punish env)))],
                   Then_del g))"

definition end_game_finish :: "ustr \<Rightarrow> plugin \<Rightarrow> plugin \<times> effect list \<times> cont" where
  \<comment> \<open>\<open>del self.sessions[group_id]\<close>\<close>
  "end_game_finish g s =
     (case sessions s g of
        Some a \<Rightarrow> (s\<lparr>sessions := (sessions s)(g := None)\<rparr>, [], Done)
      | None \<Rightarrow> (s, [Raise KeyError], Done))"

section \<open>Rounds\<close>

definition next_round_begin ::
  "config \<Rightarrow> environ \<Rightarrow> ustr \<Rightarrow> plugin \<Rightarrow> plugin \<times> effect list \<times> cont" where
  \<comment> \<open>\<open>_next_round\<close> up to \<open>await self._get_random_song(group_id)\<close>\<close>
  "next_round_begin cfg env g s =
     (case sessions s g of
        None \<Rightarrow> (s, [], Done)
      | Some a \<Rightarrow>
          let next_round = round_num (heap s a) + 1
          in if next_round > max_rounds cfg then end_game_begin env g s
             else (s, [], Then_song g a next_round))"

definition next_round_song ::
  "config \<Rightarrow> environ \<Rightarrow> ustr \<Rightarrow> nat \<Rightarrow> int \<Rightarrow> plugin \<Rightarrow> plugin \<times> effect list \<times> cont" where
  \<comment> \<open>\<open>_next_round\<close> from the song to the delivery of the round's presentation\<close>
  "next_round_song cfg env g a next_round s =
     (case pick env of
        None \<Rightarrow> (s, [Pick_song, Send No_song], Then_end_game g)
      | Some sg \<Rightarrow>
          let s1 = upd a (\<lambda>x. x\<lparr>current_song := Some sg, hint_level := 0,
                                 round_num := next_round, round_answered := False\<rparr>) s;
              s2 = cancel (timeout_task (heap s1 a)) s1
          in (s2, [Pick_song, Send (Round_clip next_round (max_rounds cfg) sg)], Then_arm g a))"

definition next_round_arm :: "ustr \<Rightarrow> nat \<Rightarrow> plugin \<Rightarrow> plugin \<times> effect list \<times> cont" where
  \<comment> \<open>\<open>session.timeout_task = asyncio.create_task(self._round_timeout(event, group_id))\<close>\<close>
  "next_round_arm g a s =
     (let t = next_task s;
          s1 = s\<lparr>tasks := (tasks s)(t := Alive (Then_timeout g)), next_task := Suc t\<rparr>
      in (upd a (\<lambda>x. x\<lparr>timeout_task := Some t\<rparr>) s1, [], Done))"

definition round_timeout_fire :: "ustr \<Rightarrow> plugin \<Rightarrow> plugin \<times> effect list \<times> cont" where
  \<comment> \<open>\<open>_round_timeout\<close> once its sleep is over; \<open>song['name']\<close> raises on the empty dict\<close>
  "round_timeout_fire g s =
     (case sessions s g of
        None \<Rightarrow> (s, [], Done)
      | Some a \<Rightarrow>
          if status (heap s a) \<noteq> Playing then (s, [], Done)
          else
            (case current_song (heap s a) of
               None \<Rightarrow> (s, [Raise KeyError], Done)
             | Some sg \<Rightarrow> (s, [Send (Time_up sg)], Then_next_round g)))"

definition start_game_begin :: "environ \<Rightarrow> ustr \<Rightarrow> plugin \<Rightarrow> plugin \<times> effect list \<times> cont" where
  \<comment> \<open>\<open>_start_game\<close>; \<open>_get_session\<close> makes a session when the group has none\<close>
  "start_game_begin env g s =
     (let r = (case sessions s g of
                 Some a \<Rightarrow> (a, s)
               | None \<Rightarrow>
                   (next_obj s,
                    s\<lparr>sessions := (sessions s)(g \<mapsto> next_obj s),
                      heap := (heap s)(next_obj s := new_session g),
                      next_obj := Suc (next_obj s)\<rparr>));
          a = fst r;
          s2 = upd a (\<lambda>x. x\<lparr>status := Playing, round_num := 0, start_time := now env\<rparr>) (snd r);
          ps = participants (heap s2 a)
      in (s2, [Send (Game_start (length ps) (map (\<lambda>x. name (snd x)) ps))], Then_next_round g))"

section \<open>Command handlers\<close>

definition cmd_create_game :: "config \<Rightarrow> event \<Rightarrow> plugin \<Rightarrow> plugin \<times> effect list \<times> cont" where
  \<comment> \<open>a session that is neither waiting nor playing is replaced by a new object\<close>
  "cmd_create_game cfg ev s =
     (let g = get_group_id ev;
          user_id = fst (get_user_info ev);
          nick = snd (get_user_info ev);
          a = next_obj s;
          x = (new_session g)\<lparr>umo := ev_umo ev, creator_id := user_id,
                 participants := dict_set user_id \<lparr>name = nick, score = 0\<rparr> []\<rparr>;
          created = (s\<lparr>sessions := (sessions s)(g \<mapsto> a), heap := (heap s)(a := x),
                       next_obj := Suc a\<rparr>,
                     [Send (Created nick)], Done)
      in if g = [] then (s, [Send Group_only], Done)
         else
           (case session_of s g of
              None \<Rightarrow> created
            | Some y \<Rightarrow>
                if status y = Waiting
                then (s, [Send (Waiting_exists (length (participants y)))], Done)
                else if status y = Playing
                then (s, [Send (Playing_exists (round_num y) (max_rounds cfg))], Done)
                else created))"

definition cmd_start_game ::
  "config \<Rightarrow> event \<Rightarrow> plugin \<Rightarrow> plugin \<times> effect list \<times> cont" where
  \<comment> \<open>the checks of \<open>cmd_start_game\<close>, in its order, up to the announcement it yields\<close>
  "cmd_start_game cfg ev s =
     (let g = get_group_id ev
      in if g = [] then (s, [Send Group_only], Done)
         else
           (case session_of s g of
              None \<Rightarrow> (s, [Send Need_create], Done)
            | Some x \<Rightarrow>
                if status x = Playing then
                  (case current_song x of
                     None \<Rightarrow> (s, [], Done)
                   | Some sg \<Rightarrow>
                       (s, [Send (In_progress (round_num x) (max_rounds cfg)
                                    (get_hint (song_name sg) (hint_level x)))], Done))
                else if status x \<noteq> Waiting then (s, [Send State_abnormal], Done)
                else if int (length (participants x)) < min_players cfg
                then (s, [Send (Too_few (min_players cfg))], Done)
                else
                  let user_id = fst (get_user_info ev);
                      nick = snd (get_user_info ev)
                  in if creator_id x \<noteq> user_id \<and> user_id \<notin> set (admin_ids cfg)
                     then (s, [Send Unauthorized_start], Done)
                     else (s, [Send (Starting nick)], Then_start_game g)))"

definition cmd_hint :: "event \<Rightarrow> plugin \<Rightarrow> plugin \<times> effect list \<times> cont" where
  \<comment> \<open>\<open>session.hint_level += 1\<close> comes before \<open>song["name"]\<close>, which raises on the empty dict\<close>
  "cmd_hint ev s =
     (let g = get_group_id ev
      in if g = [] then (s, [Send Group_only], Done)
         else
           (case sessions s g of
              None \<Rightarrow> (s, [Send No_game], Done)
            | Some a \<Rightarrow>
                if status (heap s a) \<noteq> Playing then (s, [Send No_game], Done)
                else
                  let s1 = upd a (\<lambda>x. x\<lparr>hint_level := hint_level x + 1\<rparr>) s
                  in (case current_song (heap s a) of
                        None \<Rightarrow> (s1, [Raise KeyError], Done)
                      | Some sg \<Rightarrow>
                          (s1, [Send (Hint (hint_level (heap s1 a))
                                        (get_hint (song_name sg) (hint_level (heap s1 a)))
                                        (artist sg))], Done))))"

definition cmd_answer :: "config \<Rightarrow> event \<Rightarrow> plugin \<Rightarrow> plugin \<times> effect list \<times> cont" where
  \<comment> \<open>the administrative reveal: the timer is cancelled, the answer announced, and after
      a pause of two seconds the round advances\<close>
  "cmd_answer cfg ev s =
     (let g = get_group_id ev
      in if g = [] then (s, [Send Group_only], Done)
         else if fst (get_user_info ev) \<notin> set (admin_ids cfg) then (s, [Send Admin_only], Done)
         else
           (case sessions s g of
              None \<Rightarrow> (s, [Send No_game], Done)
            | Some a \<Rightarrow>
                if status (heap s a) \<noteq> Playing then (s, [Send No_game], Done)
                else
                  let s1 = cancel (timeout_task (heap s a)) s
                  in (case current_song (heap s a) of
                        None \<Rightarrow> (s1, [Raise KeyError], Done)
                      | Some sg \<Rightarrow> (s1, [Send (Reveal sg)], Then_next_round g))))"

definition cmd_end_game :: "event \<Rightarrow> plugin \<Rightarrow> plugin \<times> effect list \<times> cont" where
  \<comment> \<open>the answer is shown mid-round; after a pause of one second \<open>_end_game\<close> runs\<close>
  "cmd_end_game ev s =
     (let g = get_group_id ev
      in if g = [] then (s, [Send Group_only], Done)
         else
           (case session_of s g of
              None \<Rightarrow> (s, [Send No_game], Done)
            | Some x \<Rightarrow>
                if status x \<noteq> Waiting \<and> status x \<noteq> Playing then (s, [Send No_game], Done)
                else
                  (s,
                   (case current_song x of
                      None \<Rightarrow> []
                    | Some sg \<Rightarrow> if status x = Playing then [Send (Final_answer sg)] else []),
                   Then_end_game g)))"

definition cmd_admin_end_game ::
  "config \<Rightarrow> event \<Rightarrow> plugin \<Rightarrow> plugin \<times> effect list \<times> cont" where
  "cmd_admin_end_game cfg ev s =
     (let g = get_group_id ev
      in if g = [] then (s, [Send Group_only], Done)
         else if fst (get_user_info ev) \<notin> set (admin_ids cfg) then (s, [Send Admin_only], Done)
         else
           (case session_of s g of
              None \<Rightarrow> (s, [Send No_game], Done)
            | Some x \<Rightarrow>
                if status x \<noteq> Waiting \<and> status x \<noteq> Playing then (s, [Send No_game], Done)
                else
                  (s, [Send (Forced_end (snd (get_user_info ev))
                               (if status x = Playing then current_song x else None))],
                   Then_end_game g)))"

section \<open>The message listener\<close>

definition on_message ::
  "config \<Rightarrow> (ustr \<Rightarrow> ustr) \<Rightarrow> event \<Rightarrow> plugin \<Rightarrow> plugin \<times> effect list \<times> cont" where
  \<comment> \<open>\<open>on_message\<close>: the join signal first, then the guess; on an accepted guess the
      coroutine announces it, sleeps two seconds and calls \<open>_next_round\<close>\<close>
  "on_message cfg lower ev s =
     (let text = strip (ev_message ev)
      in if text = [] then (s, [], Done)
         else
           let g = get_group_id ev
           in if g = [] then (s, [], Done)
              else
                (case sessions s g of
                   None \<Rightarrow> (s, [], Done)
                 | Some a \<Rightarrow>
                     let x = heap s a;
                         user_id = fst (get_user_info ev);
                         nick = snd (get_user_info ev);
                         st = status x
                     in if py_in [note_emoji] text \<and> (st = Waiting \<or> st = Playing) then
                          (if has_key user_id (participants x) then (s, [Send Already_joined], Done)
                           else if int (length (participants x)) \<ge> max_players cfg
                           then (s, [Send (Roster_full (max_players cfg))], Done)
                           else
                             let s1 = upd a (\<lambda>y. y\<lparr>participants :=
                                        dict_set user_id \<lparr>name = nick, score = 0\<rparr> (participants y)\<rparr>) s;
                                 count = length (participants (heap s1 a))
                             in if st = Waiting then (s1, [Send (Joined nick count)], Done)
                                else (s1, [Send (Joined_midgame nick count)], Done))
                        else if st = Playing then
                          (case current_song x of
                             None \<Rightarrow> (s, [], Done)
                           | Some sg \<Rightarrow>
                               let correct_answer = song_name sg
                               in if correct_answer = [] then (s, [], Done)
                                  else if startswith [35] text \<or> startswith [47] text
                                  then (s, [], Done)
                                  else if check_answer lower text correct_answer then
                                    (if round_answered x then (s, [], Done)
                                     else if \<not> has_key user_id (participants x)
                                     then (s, [Send Join_first], Done)
                                     else
                                       let s1 = upd a (\<lambda>y. y\<lparr>round_answered := True\<rparr>) s;
                                           s2 = cancel (timeout_task (heap s1 a)) s1
                                       in (case map_of (participants x) user_id of
                                             None \<Rightarrow> (s2, [Raise KeyError], Done)
                                           | Some d \<Rightarrow>
                                               let total_score = score d + 1;
                                                   s3 = upd a (\<lambda>y. y\<lparr>participants :=
                                                          dict_set user_id (d\<lparr>score := total_score\<rparr>)
                                                            (participants y)\<rparr>) s2
                                               in (s3, [Send (Correct nick sg total_score)],
                                                   Then_next_round g)))
                                  else (s, [], Done))
                        else (s, [], Done)))"

section \<open>The event loop\<close>

text \<open>
  The loop runs one task at a time until it suspends. An action either delivers an event
  to a handler, which runs in a task of its own, or resumes a suspended task; a cancelled
  task is never resumed. A task that cancels itself goes on to its next suspension point
  and ends there.
\<close>

datatype command =
  Create_game | Start_game | Hint_cmd | Answer_cmd | End_cmd | Admin_end_cmd | Plain_message

datatype action = Deliver command event | Resume nat

definition handler ::
  "config \<Rightarrow> (ustr \<Rightarrow> ustr) \<Rightarrow> command \<Rightarrow> event \<Rightarrow> plugin \<Rightarrow> plugin \<times> effect list \<times> cont" where
  "handler cfg lower c ev s =
     (case c of
        Create_game \<Rightarrow> cmd_create_game cfg ev s
      | Start_game \<Rightarrow> cmd_start_game cfg ev s
      | Hint_cmd \<Rightarrow> cmd_hint ev s
      | Answer_cmd \<Rightarrow> cmd_answer cfg ev s
      | End_cmd \<Rightarrow> cmd_end_game ev s
      | Admin_end_cmd \<Rightarrow> cmd_admin_end_game cfg ev s
      | Plain_message \<Rightarrow> on_message cfg lower ev s)"

definition resume :: "config \<Rightarrow> environ \<Rightarrow> cont \<Rightarrow> plugin \<Rightarrow> plugin \<times> effect list \<times> cont" where
  "resume cfg env k s =
     (case k of
        Done \<Rightarrow> (s, [], Done)
      | Then_start_game g \<Rightarrow> start_game_begin env g s
      | Then_next_round g \<Rightarrow> next_round_begin cfg env g s
      | Then_song g a n \<Rightarrow> next_round_song cfg env g a n s
      | Then_arm g a \<Rightarrow> next_round_arm g a s
      | Then_end_game g \<Rightarrow> end_game_begin env g s
      | Then_del g \<Rightarrow> end_game_finish g s
      | Then_timeout g \<Rightarrow> round_timeout_fire g s)"

definition suspend :: "nat \<Rightarrow> cont \<Rightarrow> plugin \<Rightarrow> plugin" where
  \<comment> \<open>what becomes of the running task \<open>t\<close> at the end of a segment\<close>
  "suspend t k s =
     s\<lparr>tasks := (tasks s)(t := (if tasks s t = Cancelled then Cancelled
                                 else if k = Done then Finished else Alive k))\<rparr>"

definition exec ::
  "config \<Rightarrow> (ustr \<Rightarrow> ustr) \<Rightarrow> environ \<Rightarrow> action \<Rightarrow> plugin \<Rightarrow> (plugin \<times> effect list) option" where
  "exec cfg lower env act s =
     (case act of
        Deliver c ev \<Rightarrow>
          let t = next_task s;
              r = handler cfg lower c ev (s\<lparr>tasks := (tasks s)(t := Alive Done), next_task := Suc t\<rparr>)
          in Some (suspend t (snd (snd r)) (fst r), fst (snd r))
      | Resume t \<Rightarrow>
          (case tasks s t of
             Alive k \<Rightarrow>
               let r = resume cfg env k s
               in Some (suspend t (snd (snd r)) (fst r), fst (snd r))
           | _ \<Rightarrow> None))"

fun run ::
  "config \<Rightarrow> (ustr \<Rightarrow> ustr) \<Rightarrow> (environ \<times> action) list \<Rightarrow> plugin \<Rightarrow> (plugin \<times> effect list) option" where
  "run cfg lower [] s = Some (s, [])"
| "run cfg lower (ea # rest) s =
     (case exec cfg lower (fst ea) (snd ea) s of
        None \<Rightarrow> None
      | Some r \<Rightarrow>
          (case run cfg lower rest (fst r) of
             None \<Rightarrow> None
           | Some r' \<Rightarrow> Some (fst r', snd r @ snd r')))"

inductive reachable :: "config \<Rightarrow> (ustr \<Rightarrow> ustr) \<Rightarrow> plugin \<Rightarrow> bool"
  for cfg :: config and lower :: "ustr \<Rightarrow> ustr" where
  reach_init: "reachable cfg lower init"
| reach_step: "reachable cfg lower s \<Longrightarrow> exec cfg lower env act s = Some (s', out) \<Longrightarrow>
               reachable cfg lower s'"

section \<open>Sample data\<close>

text \<open>A configuration, two songs, events of group \<open>g\<close> and a state in the middle of round 1,
  used where a theorem is applied to a concrete input.\<close>

definition cfg_demo :: config where
  "cfg_demo = \<lparr>round_timeout = 60, max_rounds = 2, admin_ids = [[49]], min_players = 2, max_players = 3\<rparr>"

definition song_a :: song where
  "song_a = \<lparr>song_id = 1, song_name = [26376, 20142], artist = [25105]\<rparr>"

definition song_b :: song where
  "song_b = \<lparr>song_id = 2, song_name = [22909, 21916, 27426], artist = [25105]\<rparr>"

definition mk_event :: "ustr \<Rightarrow> ustr \<Rightarrow> ustr \<Rightarrow> event" where
  "mk_event sender nm text = \<lparr>ev_group = [103], ev_sender = sender, ev_sender_name = nm, ev_message = text, ev_umo = [117]\<rparr>"

definition demo_session :: session where
  "demo_session = \<lparr>group_id = [103], status = Playing,
      participants = [([49], \<lparr>name = [65], score = 0\<rparr>), ([50], \<lparr>name = [66], score = 0\<rparr>)],
      current_song = Some song_b, hint_level = 0, round_num = 1, start_time = 0,
      timeout_task = Some 0, umo = [117], creator_id = [49], round_answered = False\<rparr>"

definition demo :: plugin where
  "demo = \<lparr>sessions = [[103] \<mapsto> 0], heap = (\<lambda>a. new_session [])(0 := demo_session), next_obj = 1,
            tasks = (\<lambda>t. Unborn)(0 := Alive (Then_timeout [103])), next_task = 1,
            stats = (\<lambda>g. Map.empty)\<rparr>"

definition waiting_demo :: plugin where
  "waiting_demo = fst (cmd_create_game cfg_demo (mk_event [49] [65] []) init)"

definition guesses :: "(ustr \<Rightarrow> ustr) \<Rightarrow> event \<Rightarrow> ustr \<Rightarrow> ustr \<Rightarrow> bool" where
  "guesses lower ev g title =
     (get_group_id ev = g \<and> strip (ev_message ev) \<noteq> [] \<and>
      \<not> py_in [note_emoji] (strip (ev_message ev)) \<and>
      \<not> startswith [35] (strip (ev_message ev)) \<and> \<not> startswith [47] (strip (ev_message ev)) \<and>
      check_answer lower (strip (ev_message ev)) title)"


definition merged :: "entry option \<Rightarrow> participant \<Rightarrow> entry" where
  "merged old d =
     \<lparr>nickname = name d,
      total = (case old of None \<Rightarrow> 0 | Some e \<Rightarrow> total e) + score d,
      wins = (case old of None \<Rightarrow> 0 | Some e \<Rightarrow> wins e) + 1\<rparr>"

definition scored_demo :: plugin where
  "scored_demo = upd 0 (\<lambda>x. x\<lparr>participants :=
      [([49], \<lparr>name = [65], score = 3\<rparr>), ([50], \<lparr>name = [66], score = 3\<rparr>),
       ([51], \<lparr>name = [67], score = 0\<rparr>)]\<rparr>) demo"





definition env_a :: environ where
  \<comment> \<open>environments: the song source answers with the first or the second sample song\<close>
  "env_a = \<lparr>pick = Some song_a, punish = Truth, now = 7\<rparr>"

definition env_b :: environ where
  "env_b = \<lparr>pick = Some song_b, punish = Truth, now = 7\<rparr>"

definition cfg_long :: config where
  "cfg_long = cfg_demo\<lparr>max_rounds := 5\<rparr>"

definition first_round :: "(environ \<times> action) list" where
  \<comment> \<open>Alice creates a game, Bob joins, Alice starts it; the start, the round advance, the
      song and the timer follow in the handler's task 2\<close>
  "first_round =
     [(env_b, Deliver Create_game (mk_event [49] [65] [])),
      (env_b, Deliver Plain_message (mk_event [50] [66] [127926])),
      (env_b, Deliver Start_game (mk_event [49] [65] [])),
      (env_b, Resume 2), (env_b, Resume 2), (env_b, Resume 2), (env_b, Resume 2)]"


definition reveal_race :: "(environ \<times> action) list" where
  \<comment> \<open>Bob guesses round 1 and, before his handler (task 4) advances, the administrator
      reveals the answer (task 5); then each of the two advances\<close>
  "reveal_race =
     first_round @
     [(env_a, Deliver Plain_message (mk_event [50] [66] [22909, 21916, 27426])),
      (env_a, Deliver Answer_cmd (mk_event [49] [65] [])),
      (env_a, Resume 4), (env_a, Resume 4), (env_a, Resume 4),
      (env_b, Resume 5), (env_b, Resume 5), (env_b, Resume 5)]"


section \<open>Facts about strings\<close>

lemma startswith_iff: "startswith p s = (\<exists>r. s = p @ r)"
  by (induction p s rule: startswith.induct) auto

lemma py_in_iff: "py_in a b = (\<exists>p r. b = p @ a @ r)"
proof (induction b)
  case Nil
  then show ?case by auto
next
  case (Cons c cs)
  show ?case
  proof
    assume "py_in a (c # cs)"
    then have "startswith a (c # cs) \<or> py_in a cs" by simp
    then show "\<exists>p r. c # cs = p @ a @ r"
    proof
      assume "startswith a (c # cs)"
      then obtain r where "c # cs = a @ r" by (auto simp: startswith_iff)
      then have "c # cs = [] @ a @ r" by simp
      then show ?thesis by blast
    next
      assume "py_in a cs"
      then obtain p r where "cs = p @ a @ r" using Cons.IH by blast
      then have "c # cs = (c # p) @ a @ r" by simp
      then show ?thesis by blast
    qed
  next
    assume "\<exists>p r. c # cs = p @ a @ r"
    then obtain p r where pr: "c # cs = p @ a @ r" by blast
    show "py_in a (c # cs)"
    proof (cases p)
      case Nil
      with pr have "startswith a (c # cs)" by (auto simp: startswith_iff)
      then show ?thesis by simp
    next
      case (Cons q qs)
      with pr have "cs = qs @ a @ r" by simp
      then have "py_in a cs" using Cons.IH by blast
      then show ?thesis by simp
    qed
  qed
qed

lemma reveal_loop_upt:
  "k \<le> n \<Longrightarrow> n \<le> length t \<Longrightarrow>
   reveal_loop [k..<n] t (take k t @ replicate (length t - k) c) =
     take n t @ replicate (length t - n) c"
proof (induction "n - k" arbitrary: k)
  case 0
  then show ?case by simp
next
  case (Suc d)
  then have kn: "k < n" and kt: "k < length t" by auto
  have upd: "(take k t @ replicate (length t - k) c)[k := t ! k] =
      take (Suc k) t @ replicate (length t - Suc k) c"
  proof -
    have "replicate (length t - k) c = c # replicate (length t - Suc k) c"
      using kt by (metis Suc_diff_Suc replicate_Suc)
    then show ?thesis using kt by (simp add: list_update_append take_Suc_conv_app_nth)
  qed
  have "d = n - Suc k" using Suc.hyps(2) by simp
  then have "reveal_loop [Suc k..<n] t (take (Suc k) t @ replicate (length t - Suc k) c) =
      take n t @ replicate (length t - n) c"
    using Suc.hyps(1) kn Suc.prems(2) by simp
  then show ?case using kn upd by (simp add: upt_conv_Cons)
qed

lemma get_hint_eq:
  "get_hint t l =
     take (nat (min l (int (length t)))) t @
     replicate (length t - nat (min l (int (length t)))) star"
proof (cases "l \<le> 0")
  case True
  then show ?thesis by (simp add: get_hint_def)
next
  case False
  have "reveal_loop [0..<nat (min l (int (length t)))] t (take 0 t @ replicate (length t - 0) star) =
      take (nat (min l (int (length t)))) t @
      replicate (length t - nat (min l (int (length t)))) star"
    by (rule reveal_loop_upt) auto
  with False show ?thesis by (simp add: get_hint_def Let_def)
qed

lemma get_hint_length: "length (get_hint t l) = length t"
  by (simp add: get_hint_eq)

section \<open>Facts about the state\<close>

lemma upd_simps:
  "sessions (upd a f s) = sessions s"
  "heap (upd a f s) = (heap s)(a := f (heap s a))"
  "next_obj (upd a f s) = next_obj s"
  "tasks (upd a f s) = tasks s"
  "next_task (upd a f s) = next_task s"
  "stats (upd a f s) = stats s"
  by (simp_all add: upd_def)

lemma cancel_simps:
  "sessions (cancel tt s) = sessions s"
  "heap (cancel tt s) = heap s"
  "next_obj (cancel tt s) = next_obj s"
  "next_task (cancel tt s) = next_task s"
  "stats (cancel tt s) = stats s"
  by (simp_all add: cancel_def split: option.splits task_state.splits)

lemma dict_set_fresh: "\<not> has_key k d \<Longrightarrow> dict_set k v d = d @ [(k, v)]"
  by (induction d) (auto simp: has_key_def)

lemma has_key_map_of: "has_key k d = (map_of d k \<noteq> None)"
  by (induction d) (auto simp: has_key_def)

lemma map_of_dict_set: "map_of (dict_set k v d) = (map_of d)(k \<mapsto> v)"
  by (induction d) (auto simp: fun_eq_iff)

lemma keys_dict_set: "has_key k d \<Longrightarrow> map fst (dict_set k v d) = map fst d"
  by (induction d) (auto simp: has_key_def)

lemma join_outcome:
  assumes "sessions s g = Some a" and "g \<noteq> []" and "get_group_id ev = g"
    and "status (heap s a) = Waiting \<or> status (heap s a) = Playing"
    and "py_in [note_emoji] (strip (ev_message ev))"
  shows "on_message cfg lower ev s =
     (if has_key (fst (get_user_info ev)) (participants (heap s a))
      then (s, [Send Already_joined], Done)
      else if max_players cfg \<le> int (length (participants (heap s a)))
      then (s, [Send (Roster_full (max_players cfg))], Done)
      else (upd a (\<lambda>y. y\<lparr>participants := participants y @
                    [(fst (get_user_info ev), \<lparr>name = snd (get_user_info ev), score = 0\<rparr>)]\<rparr>) s,
            [Send ((if status (heap s a) = Waiting then Joined else Joined_midgame)
                     (snd (get_user_info ev)) (Suc (length (participants (heap s a)))))],
            Done))"
proof -
  have ne: "strip (ev_message ev) \<noteq> []" using assms(5) by auto
  show ?thesis
    using assms ne
    by (auto simp: on_message_def Let_def upd_simps dict_set_fresh upd_def)
qed

lemma end_game_begin_ranks:
  assumes "sessions s g = Some a" and "participants (heap s a) \<noteq> []"
  shows "end_game_begin env g s =
     (fst (save_scores g (sorted_scores (participants (heap s a)))
             (upd a (\<lambda>x. x\<lparr>status := Ended\<rparr>) (cancel (timeout_task (heap s a)) s))),
      snd (save_scores g (sorted_scores (participants (heap s a)))
             (upd a (\<lambda>x. x\<lparr>status := Ended\<rparr>) (cancel (timeout_task (heap s a)) s))) @
        [Send (Settlement (round_num (heap s a)) (sorted_scores (participants (heap s a)))
                 (challenge_of (sorted_scores (participants (heap s a))) (punish env)))],
      Then_del g)"
  using assms by (simp add: end_game_begin_def Let_def upd_simps cancel_simps)

section \<open>The hint generator\<close>

text \<open>
  C5. For every title and every integer level the hint is as long as the title; its first
  \<open>min(level, len(title))\<close> characters are the title's, in place, and every other position
  holds the mask character U+FF0A; at a level of zero or below (the level \<open>- n\<close> for a
  natural number \<open>n\<close>) the hint is all mask.
\<close>

theorem get_hint_reveals_prefix:
  "length (get_hint t l) = length t \<and>
   take (nat (min l (int (length t)))) (get_hint t l) = take (nat (min l (int (length t)))) t \<and>
   drop (nat (min l (int (length t)))) (get_hint t l) =
     replicate (length t - nat (min l (int (length t)))) star \<and>
   get_hint t (- int n) = replicate (length t) star"
proof -
  have len: "length (take (nat (min l (int (length t)))) t) = nat (min l (int (length t)))"
    by simp
  have masked: "get_hint t (- int n) = replicate (length t) star"
    by (simp add: get_hint_def)
  show ?thesis using len masked by (simp add: get_hint_eq)
qed

theorem get_hint_reveals_prefix_witness:
  "get_hint [26376, 20142, 25105] 2 = [26376, 20142, star] \<and>
   get_hint [26376, 20142, 25105] 5 = [26376, 20142, 25105] \<and>
   get_hint [26376, 20142, 25105] 0 = [star, star, star]"
proof -
  have a: "nat (min 2 (int (length [26376, 20142, 25105::nat]))) = 2" by simp
  have b: "nat (min 5 (int (length [26376, 20142, 25105::nat]))) = 3" by simp
  have "get_hint [26376, 20142, 25105] 2 = [26376, 20142, star]"
    using get_hint_reveals_prefix [of "[26376, 20142, 25105]" 2 0] a
    by (simp add: get_hint_eq numeral_2_eq_2 numeral_3_eq_3)
  moreover have "get_hint [26376, 20142, 25105] 5 = [26376, 20142, 25105]"
    using b by (simp add: get_hint_eq)
  moreover have "get_hint [26376, 20142, 25105] 0 = [star, star, star]"
    by (simp add: get_hint_def numeral_3_eq_3)
  ultimately show ?thesis by simp
qed

section \<open>The answer matcher\<close>

text \<open>
  C3, as the code has it. Both sides are trimmed of surrounding whitespace, lower-cased,
  and freed of every space character U+0020; whitespace of any other kind inside the text
  stays. The matcher is true exactly when the two normalised strings are equal, or the
  normalised title occurs in the normalised submission, or the normalised submission has
  at least two characters and occurs in the normalised title. The four examples of the
  specification hold.
\<close>

theorem check_answer_three_way:
  "check_answer lower u c =
     (replace_space (lower (strip u)) = replace_space (lower (strip c)) \<or>
      (\<exists>p r. replace_space (lower (strip u)) = p @ replace_space (lower (strip c)) @ r) \<or>
      (2 \<le> length (replace_space (lower (strip u))) \<and>
       (\<exists>p r. replace_space (lower (strip c)) = p @ replace_space (lower (strip u)) @ r))) \<and>
   check_answer lower_ascii [26376, 20142] [26376, 20142] \<and>
   check_answer lower_ascii [25105, 22909, 21916, 27426, 26376, 20142, 21834] [26376, 20142] \<and>
   \<not> check_answer lower_ascii [26376] [26376, 20142] \<and>
   check_answer lower_ascii [32, 77, 111, 111, 110, 32] [109, 111, 111, 110]"
proof -
  have general: "check_answer lower u c =
     (replace_space (lower (strip u)) = replace_space (lower (strip c)) \<or>
      (\<exists>p r. replace_space (lower (strip u)) = p @ replace_space (lower (strip c)) @ r) \<or>
      (2 \<le> length (replace_space (lower (strip u))) \<and>
       (\<exists>p r. replace_space (lower (strip c)) = p @ replace_space (lower (strip u)) @ r)))"
    unfolding check_answer_def Let_def py_in_iff by auto
  have e1: "check_answer lower_ascii [26376, 20142] [26376, 20142]"
    by (simp add: check_answer_def)
  have e2: "check_answer lower_ascii [25105, 22909, 21916, 27426, 26376, 20142, 21834] [26376, 20142]"
    by (simp add: check_answer_def strip_def py_isspace_def lower_ascii_def replace_space_def)
  have e3: "\<not> check_answer lower_ascii [26376] [26376, 20142]"
    by (simp add: check_answer_def strip_def py_isspace_def lower_ascii_def replace_space_def)
  have e4: "check_answer lower_ascii [32, 77, 111, 111, 110, 32] [109, 111, 111, 110]"
    by (simp add: check_answer_def strip_def py_isspace_def lower_ascii_def replace_space_def)
  show ?thesis using general e1 e2 e3 e4 by blast
qed

theorem check_answer_three_way_witness:
  "check_answer lower_ascii [26376, 32, 20142] [26376, 20142] \<and>
   \<not> check_answer lower_ascii [26376, 25105] [26376, 20142]"
proof -
  have n1: "replace_space (lower_ascii (strip [26376, 32, 20142])) = [26376, 20142]"
    by (simp add: strip_def py_isspace_def lower_ascii_def replace_space_def)
  have n2: "replace_space (lower_ascii (strip [26376, 20142])) = [26376, 20142]"
    by (simp add: strip_def py_isspace_def lower_ascii_def replace_space_def)
  have n3: "replace_space (lower_ascii (strip [26376, 25105])) = [26376, 25105]"
    by (simp add: strip_def py_isspace_def lower_ascii_def replace_space_def)
  have "check_answer lower_ascii [26376, 32, 20142] [26376, 20142]"
    using check_answer_three_way [of lower_ascii "[26376, 32, 20142]" "[26376, 20142]"] n1 n2
    by simp
  moreover have "\<not> check_answer lower_ascii [26376, 25105] [26376, 20142]"
    by (simp add: check_answer_def n2 n3)
  ultimately show ?thesis by simp
qed

text \<open>
  C3 as the specification states it fails on text with whitespace other than U+0020 inside:
  with an ideographic space U+3000 between the two characters of the title, the matcher of
  the specification accepts and the program's rejects.
\<close>

theorem check_answer_keeps_ideographic_space:
  "spec_match lower_ascii [26376, 12288, 20142] [26376, 20142] \<and>
   \<not> check_answer lower_ascii [26376, 12288, 20142] [26376, 20142]"
  by (simp add: spec_match_def spec_normalize_def check_answer_def strip_def py_isspace_def
      lower_ascii_def replace_space_def)

section \<open>Joining\<close>

text \<open>
  C7. A message with the join signal is handled in the waiting and in the playing state.
  It is refused with the already-joined message when the sender is enrolled, and with the
  roster-full message when the sender is not enrolled and the roster has reached the
  configured maximum; both leave the whole state as it was. Otherwise the sender is appended
  to the roster with score 0 and nothing else changes. A settlement of the state after a
  join ranks the new participant.
\<close>

theorem join_request:
  assumes "sessions s g = Some a" and "g \<noteq> []" and "get_group_id ev = g"
    and "status (heap s a) = Waiting \<or> status (heap s a) = Playing"
    and "py_in [note_emoji] (strip (ev_message ev))"
  shows "on_message cfg lower ev s =
     (if has_key (fst (get_user_info ev)) (participants (heap s a))
      then (s, [Send Already_joined], Done)
      else if max_players cfg \<le> int (length (participants (heap s a)))
      then (s, [Send (Roster_full (max_players cfg))], Done)
      else (upd a (\<lambda>y. y\<lparr>participants := participants y @
                    [(fst (get_user_info ev), \<lparr>name = snd (get_user_info ev), score = 0\<rparr>)]\<rparr>) s,
            [Send ((if status (heap s a) = Waiting then Joined else Joined_midgame)
                     (snd (get_user_info ev)) (Suc (length (participants (heap s a)))))],
            Done)) \<and>
     (\<not> has_key (fst (get_user_info ev)) (participants (heap s a)) \<and>
      int (length (participants (heap s a))) < max_players cfg \<longrightarrow>
        (\<exists>saves ranked ch.
           fst (snd (end_game_begin env g (fst (on_message cfg lower ev s)))) =
             saves @ [Send (Settlement (round_num (heap s a)) ranked ch)] \<and>
           (fst (get_user_info ev), \<lparr>name = snd (get_user_info ev), score = 0\<rparr>) \<in> set ranked))"
proof -
  let ?u = "fst (get_user_info ev)"
  let ?e = "\<lparr>name = snd (get_user_info ev), score = 0\<rparr>"
  let ?s' = "upd a (\<lambda>y. y\<lparr>participants := participants y @ [(?u, ?e)]\<rparr>) s"
  have eq: "on_message cfg lower ev s =
     (if has_key ?u (participants (heap s a))
      then (s, [Send Already_joined], Done)
      else if max_players cfg \<le> int (length (participants (heap s a)))
      then (s, [Send (Roster_full (max_players cfg))], Done)
      else (?s',
            [Send ((if status (heap s a) = Waiting then Joined else Joined_midgame)
                     (snd (get_user_info ev)) (Suc (length (participants (heap s a)))))],
            Done))"
    by (rule join_outcome [OF assms])
  have later: "\<exists>saves ranked ch.
       fst (snd (end_game_begin env g (fst (on_message cfg lower ev s)))) =
         saves @ [Send (Settlement (round_num (heap s a)) ranked ch)] \<and> (?u, ?e) \<in> set ranked"
    if fresh: "\<not> has_key ?u (participants (heap s a))"
      and room: "int (length (participants (heap s a))) < max_players cfg"
  proof -
    have s': "fst (on_message cfg lower ev s) = ?s'" using eq fresh room by simp
    have tab: "sessions ?s' g = Some a" using assms(1) by (simp add: upd_simps)
    have ps: "participants (heap ?s' a) = participants (heap s a) @ [(?u, ?e)]"
      by (simp add: upd_simps)
    have rn: "round_num (heap ?s' a) = round_num (heap s a)" by (simp add: upd_simps)
    have ne: "participants (heap ?s' a) \<noteq> []" using ps by simp
    have mem: "(?u, ?e) \<in> set (sorted_scores (participants (heap ?s' a)))"
      using ps by (simp add: sorted_scores_def)
    have "fst (snd (end_game_begin env g ?s')) =
        snd (save_scores g (sorted_scores (participants (heap ?s' a)))
               (upd a (\<lambda>x. x\<lparr>status := Ended\<rparr>) (cancel (timeout_task (heap ?s' a)) ?s'))) @
        [Send (Settlement (round_num (heap s a)) (sorted_scores (participants (heap ?s' a)))
                 (challenge_of (sorted_scores (participants (heap ?s' a))) (punish env)))]"
      by (simp only: end_game_begin_ranks [OF tab ne] rn fst_conv snd_conv)
    with mem show ?thesis unfolding s' by blast
  qed
  show ?thesis
  proof (rule conjI)
    show "on_message cfg lower ev s =
     (if has_key ?u (participants (heap s a))
      then (s, [Send Already_joined], Done)
      else if max_players cfg \<le> int (length (participants (heap s a)))
      then (s, [Send (Roster_full (max_players cfg))], Done)
      else (?s',
            [Send ((if status (heap s a) = Waiting then Joined else Joined_midgame)
                     (snd (get_user_info ev)) (Suc (length (participants (heap s a)))))],
            Done))" by (rule eq)
  next
    show "\<not> has_key ?u (participants (heap s a)) \<and>
      int (length (participants (heap s a))) < max_players cfg \<longrightarrow>
        (\<exists>saves ranked ch.
           fst (snd (end_game_begin env g (fst (on_message cfg lower ev s)))) =
             saves @ [Send (Settlement (round_num (heap s a)) ranked ch)] \<and>
           (?u, ?e) \<in> set ranked)"
      using later by blast
  qed
qed

theorem join_request_witness:
  "fst (snd (on_message cfg_demo lower_ascii (mk_event [51] [67] [127926]) demo)) =
     [Send (Joined_midgame [67] 3)] \<and>
   participants (heap (fst (on_message cfg_demo lower_ascii (mk_event [51] [67] [127926]) demo)) 0) =
     participants demo_session @ [([51], \<lparr>name = [67], score = 0\<rparr>)] \<and>
   on_message cfg_demo lower_ascii (mk_event [50] [66] [127926]) demo =
     (demo, [Send Already_joined], Done)"
proof -
  have h1: "sessions demo [103] = Some 0" by (simp add: demo_def)
  have h2: "[103] \<noteq> ([]::ustr)" by simp
  have h3: "get_group_id (mk_event [51] [67] [127926]) = [103]"
    by (simp add: get_group_id_def mk_event_def)
  have h3': "get_group_id (mk_event [50] [66] [127926]) = [103]"
    by (simp add: get_group_id_def mk_event_def)
  have h4: "status (heap demo 0) = Waiting \<or> status (heap demo 0) = Playing"
    by (simp add: demo_def demo_session_def)
  have h5: "py_in [note_emoji] (strip (ev_message (mk_event [51] [67] [127926])))"
    by (simp add: mk_event_def strip_def py_isspace_def note_emoji_def)
  have h5': "py_in [note_emoji] (strip (ev_message (mk_event [50] [66] [127926])))"
    by (simp add: mk_event_def strip_def py_isspace_def note_emoji_def)
  have hp: "heap demo 0 = demo_session" by (simp add: demo_def)
  have u3: "get_user_info (mk_event [51] [67] [127926]) = ([51], [67])"
    by (simp add: get_user_info_def mk_event_def)
  have u2: "get_user_info (mk_event [50] [66] [127926]) = ([50], [66])"
    by (simp add: get_user_info_def mk_event_def)
  have k3: "\<not> has_key [51] (participants demo_session)"
    by (simp add: has_key_def demo_session_def)
  have k2: "has_key [50] (participants demo_session)"
    by (simp add: has_key_def demo_session_def)
  have len: "length (participants demo_session) = 2" by (simp add: demo_session_def)
  have st: "status demo_session = Playing" by (simp add: demo_session_def)
  have mx: "max_players cfg_demo = 3" by (simp add: cfg_demo_def)
  from join_request [OF h1 h2 h3 h4 h5, of cfg_demo lower_ascii]
  have a: "on_message cfg_demo lower_ascii (mk_event [51] [67] [127926]) demo =
      (upd 0 (\<lambda>y. y\<lparr>participants := participants y @ [([51], \<lparr>name = [67], score = 0\<rparr>)]\<rparr>) demo,
       [Send (Joined_midgame [67] 3)], Done)"
    by (simp add: hp u3 k3 len st mx)
  from join_request [OF h1 h2 h3' h4 h5', of cfg_demo lower_ascii]
  have b: "on_message cfg_demo lower_ascii (mk_event [50] [66] [127926]) demo =
      (demo, [Send Already_joined], Done)"
    by (simp add: hp u2 k2)
  show ?thesis using a b by (simp add: upd_simps hp)
qed

section \<open>Hints\<close>

lemma hint_outcome:
  assumes "sessions s g = Some a" and "g \<noteq> []" and "get_group_id ev = g"
    and "status (heap s a) = Playing" and "current_song (heap s a) = Some sg"
  shows "cmd_hint ev s =
     (upd a (\<lambda>x. x\<lparr>hint_level := hint_level x + 1\<rparr>) s,
      [Send (Hint (hint_level (heap s a) + 1)
               (get_hint (song_name sg) (hint_level (heap s a) + 1)) (artist sg))],
      Done)"
  using assms by (simp add: cmd_hint_def Let_def upd_simps)

lemma next_round_song_resets:
  assumes "pick env = Some sg'"
  shows "heap (fst (next_round_song cfg env g a n s)) a =
     (heap s a)\<lparr>current_song := Some sg', hint_level := 0, round_num := n, round_answered := False\<rparr>"
  using assms by (simp add: next_round_song_def Let_def upd_simps cancel_simps)

text \<open>
  C4, as the code has it. In a playing session with a song, a hint request adds exactly one
  to \<open>hint_level\<close>, with no cap, and changes nothing else in the state; the hint it
  renders reveals the first \<open>min(hint_level, len(title))\<close> characters of the title, so only
  the rendering is capped. Installing the song of a new round sets \<open>hint_level\<close> to 0.
\<close>

theorem hint_request:
  assumes "sessions s g = Some a" and "g \<noteq> []" and "get_group_id ev = g"
    and "status (heap s a) = Playing" and "current_song (heap s a) = Some sg"
    and "pick env = Some sg'"
  shows "cmd_hint ev s =
     (upd a (\<lambda>x. x\<lparr>hint_level := hint_level x + 1\<rparr>) s,
      [Send (Hint (hint_level (heap s a) + 1)
               (get_hint (song_name sg) (hint_level (heap s a) + 1)) (artist sg))],
      Done) \<and>
    get_hint (song_name sg) (hint_level (heap s a) + 1) =
      take (nat (min (hint_level (heap s a) + 1) (int (length (song_name sg))))) (song_name sg) @
      replicate (length (song_name sg) -
                 nat (min (hint_level (heap s a) + 1) (int (length (song_name sg))))) star \<and>
    hint_level (heap (fst (next_round_song cfg env g a n s)) a) = 0"
  using hint_outcome [OF assms(1-5)] next_round_song_resets [OF assms(6)]
  by (simp add: get_hint_eq)

theorem hint_request_witness:
  "hint_level (heap (fst (cmd_hint (mk_event [50] [66] []) demo)) 0) = 1 \<and>
   fst (snd (cmd_hint (mk_event [50] [66] []) demo)) = [Send (Hint 1 [22909, star, star] [25105])]"
proof -
  have h1: "sessions demo [103] = Some 0" by (simp add: demo_def)
  have h2: "[103] \<noteq> ([]::ustr)" by simp
  have h3: "get_group_id (mk_event [50] [66] []) = [103]"
    by (simp add: get_group_id_def mk_event_def)
  have h4: "status (heap demo 0) = Playing" by (simp add: demo_def demo_session_def)
  have h5: "current_song (heap demo 0) = Some song_b" by (simp add: demo_def demo_session_def)
  have h6: "pick \<lparr>pick = Some song_a, punish = Truth, now = 0\<rparr> = Some song_a" by simp
  have lv: "hint_level (heap demo 0) = 0" by (simp add: demo_def demo_session_def)
  have hint: "get_hint (song_name song_b) 1 = [22909, star, star]"
    by (simp add: get_hint_eq song_b_def numeral_2_eq_2)
  have ar: "artist song_b = [25105]" by (simp add: song_b_def)
  from hint_request [OF h1 h2 h3 h4 h5 h6]
  have "cmd_hint (mk_event [50] [66] []) demo =
     (upd 0 (\<lambda>x. x\<lparr>hint_level := hint_level x + 1\<rparr>) demo,
      [Send (Hint 1 [22909, star, star] [25105])], Done)"
    by (simp add: lv hint ar)
  then show ?thesis by (simp add: upd_simps lv)
qed

text \<open>
  C4 as the specification states it fails: after five hint requests on a title of three
  characters the stored level is 5, not 3.
\<close>

theorem hint_level_exceeds_title:
  "length (song_name song_b) = 3 \<and>
   hint_level (heap (fst (cmd_hint (mk_event [50] [66] [])
     (fst (cmd_hint (mk_event [50] [66] [])
     (fst (cmd_hint (mk_event [50] [66] [])
     (fst (cmd_hint (mk_event [50] [66] [])
     (fst (cmd_hint (mk_event [50] [66] [])
     demo)))))))))) 0) = 5"
proof -
  let ?inc = "upd 0 (\<lambda>x. x\<lparr>hint_level := hint_level x + 1\<rparr>)"
  have g: "get_group_id (mk_event [50] [66] []) = [103]"
    by (simp add: get_group_id_def mk_event_def)
  have step: "fst (cmd_hint (mk_event [50] [66] []) s) = ?inc s"
    if "sessions s [103] = Some 0" and "status (heap s 0) = Playing"
      and "current_song (heap s 0) = Some song_b" for s
    using hint_outcome [OF that(1) _ g that(2) that(3)] by simp
  have d: "sessions demo [103] = Some 0" "status (heap demo 0) = Playing"
    "current_song (heap demo 0) = Some song_b" "hint_level (heap demo 0) = 0"
    by (simp_all add: demo_def demo_session_def)
  have s1: "fst (cmd_hint (mk_event [50] [66] []) demo) = ?inc demo"
    by (rule step) (simp_all add: d)
  have s2: "fst (cmd_hint (mk_event [50] [66] []) (?inc demo)) = ?inc (?inc demo)"
    by (rule step) (simp_all add: d upd_simps)
  have s3: "fst (cmd_hint (mk_event [50] [66] []) (?inc (?inc demo))) = ?inc (?inc (?inc demo))"
    by (rule step) (simp_all add: d upd_simps)
  have s4: "fst (cmd_hint (mk_event [50] [66] []) (?inc (?inc (?inc demo)))) =
      ?inc (?inc (?inc (?inc demo)))"
    by (rule step) (simp_all add: d upd_simps)
  have s5: "fst (cmd_hint (mk_event [50] [66] []) (?inc (?inc (?inc (?inc demo))))) =
      ?inc (?inc (?inc (?inc (?inc demo))))"
    by (rule step) (simp_all add: d upd_simps)
  show ?thesis
    by (simp add: s1 s2 s3 s4 s5 upd_simps d song_b_def)
qed

section \<open>Starting\<close>

lemma start_checks:
  assumes "sessions s g = Some a" and "g \<noteq> []" and "get_group_id ev = g"
    and "status (heap s a) = Waiting"
  shows "cmd_start_game cfg ev s =
     (if int (length (participants (heap s a))) < min_players cfg
      then (s, [Send (Too_few (min_players cfg))], Done)
      else if creator_id (heap s a) \<noteq> fst (get_user_info ev) \<and>
              fst (get_user_info ev) \<notin> set (admin_ids cfg)
      then (s, [Send Unauthorized_start], Done)
      else (s, [Send (Starting (snd (get_user_info ev)))], Then_start_game g))"
  using assms by (simp add: cmd_start_game_def Let_def session_of_def)

lemma start_refused:
  assumes "sessions s g = Some a" and "get_group_id ev = g" and "status (heap s a) \<noteq> Waiting"
  shows "fst (cmd_start_game cfg ev s) = s \<and> snd (snd (cmd_start_game cfg ev s)) = Done"
  using assms by (simp add: cmd_start_game_def Let_def session_of_def split: option.splits)

lemma start_game_begin_existing:
  assumes "sessions s g = Some a"
  shows "start_game_begin env g s =
     (upd a (\<lambda>x. x\<lparr>status := Playing, round_num := 0, start_time := now env\<rparr>) s,
      [Send (Game_start (length (participants (heap s a)))
               (map (\<lambda>x. name (snd x)) (participants (heap s a))))],
      Then_next_round g)"
  using assms by (simp add: start_game_begin_def Let_def upd_simps)

lemma first_round_begin:
  assumes "sessions s g = Some a" and "round_num (heap s a) = 0" and "0 < max_rounds cfg"
  shows "next_round_begin cfg env g s = (s, [], Then_song g a 1)"
  using assms by (simp add: next_round_begin_def Let_def)

text \<open>
  C8, as the code has it. A start request changes nothing by itself. In the waiting state
  it is refused with the too-few-players message whenever the roster is below the
  configured minimum; with the roster at or above the minimum it is refused with the
  unauthorized message whenever the requester is neither the creator nor an administrator;
  otherwise it is announced and \<open>_start_game\<close> follows. Outside the waiting state it is
  never accepted. \<open>_start_game\<close> sets the status to playing and the round number to 0 (and
  stamps the start time); the round advance that follows asks for a song for round 1, and
  installing that song makes the round number 1.
\<close>

theorem start_request:
  assumes "sessions s g = Some a" and "g \<noteq> []" and "get_group_id ev = g"
  shows "fst (cmd_start_game cfg ev s) = s \<and>
    (status (heap s a) = Waiting \<longrightarrow>
       cmd_start_game cfg ev s =
         (if int (length (participants (heap s a))) < min_players cfg
          then (s, [Send (Too_few (min_players cfg))], Done)
          else if creator_id (heap s a) \<noteq> fst (get_user_info ev) \<and>
                  fst (get_user_info ev) \<notin> set (admin_ids cfg)
          then (s, [Send Unauthorized_start], Done)
          else (s, [Send (Starting (snd (get_user_info ev)))], Then_start_game g))) \<and>
    (status (heap s a) \<noteq> Waiting \<longrightarrow> snd (snd (cmd_start_game cfg ev s)) = Done) \<and>
    start_game_begin env g s =
      (upd a (\<lambda>x. x\<lparr>status := Playing, round_num := 0, start_time := now env\<rparr>) s,
       [Send (Game_start (length (participants (heap s a)))
                (map (\<lambda>x. name (snd x)) (participants (heap s a))))],
       Then_next_round g) \<and>
    (0 < max_rounds cfg \<longrightarrow>
       next_round_begin cfg env g (fst (start_game_begin env g s)) =
         (fst (start_game_begin env g s), [], Then_song g a 1)) \<and>
    (pick env = Some sg \<longrightarrow>
       round_num (heap (fst (next_round_song cfg env g a 1 (fst (start_game_begin env g s)))) a) = 1)"
proof -
  have unchanged: "fst (cmd_start_game cfg ev s) = s"
  proof (cases "status (heap s a) = Waiting")
    case True
    then show ?thesis using start_checks [OF assms True, of cfg] by simp
  next
    case False
    then show ?thesis using start_refused [OF assms(1) assms(3) False] by simp
  qed
  have started: "fst (start_game_begin env g s) =
      upd a (\<lambda>x. x\<lparr>status := Playing, round_num := 0, start_time := now env\<rparr>) s"
    by (simp add: start_game_begin_existing [OF assms(1)])
  have tab: "sessions (fst (start_game_begin env g s)) g = Some a"
    using assms(1) by (simp add: started upd_simps)
  have zero: "round_num (heap (fst (start_game_begin env g s)) a) = 0"
    by (simp add: started upd_simps)
  have first: "0 < max_rounds cfg \<Longrightarrow>
      next_round_begin cfg env g (fst (start_game_begin env g s)) =
        (fst (start_game_begin env g s), [], Then_song g a 1)"
    by (rule first_round_begin [OF tab zero])
  have one: "pick env = Some sg \<Longrightarrow>
      round_num (heap (fst (next_round_song cfg env g a 1 (fst (start_game_begin env g s)))) a) = 1"
    by (simp add: next_round_song_resets)
  show ?thesis
    using unchanged start_checks [OF assms, of cfg] start_refused [OF assms(1) assms(3), of cfg]
      start_game_begin_existing [OF assms(1), of env] first one
    by blast
qed

lemma waiting_demo_eq:
  "waiting_demo =
     \<lparr>sessions = [[103] \<mapsto> 0],
      heap = (\<lambda>a. new_session [])(0 := (new_session [103])\<lparr>umo := [117], creator_id := [49],
                 participants := [([49], \<lparr>name = [65], score = 0\<rparr>)]\<rparr>),
      next_obj = 1, tasks = (\<lambda>t. Unborn), next_task = 0, stats = (\<lambda>g. Map.empty)\<rparr>"
  by (simp add: waiting_demo_def cmd_create_game_def Let_def get_group_id_def get_user_info_def
      mk_event_def session_of_def init_def)

lemma waiting_demo_facts:
  "sessions waiting_demo [103] = Some 0"
  "status (heap waiting_demo 0) = Waiting"
  "participants (heap waiting_demo 0) = [([49], \<lparr>name = [65], score = 0\<rparr>)]"
  "creator_id (heap waiting_demo 0) = [49]"
  by (simp_all add: waiting_demo_eq new_session_def)

theorem start_request_witness:
  "cmd_start_game (cfg_demo\<lparr>min_players := 1\<rparr>) (mk_event [50] [66] []) waiting_demo =
     (waiting_demo, [Send Unauthorized_start], Done) \<and>
   cmd_start_game (cfg_demo\<lparr>min_players := 1\<rparr>) (mk_event [49] [65] []) waiting_demo =
     (waiting_demo, [Send (Starting [65])], Then_start_game [103]) \<and>
   status (heap (fst (start_game_begin \<lparr>pick = None, punish = Truth, now = 7\<rparr> [103] waiting_demo)) 0) =
     Playing"
proof -
  have h2: "[103] \<noteq> ([]::ustr)" by simp
  have h3: "get_group_id (mk_event [50] [66] []) = [103]"
    by (simp add: get_group_id_def mk_event_def)
  have h3': "get_group_id (mk_event [49] [65] []) = [103]"
    by (simp add: get_group_id_def mk_event_def)
  have u2: "get_user_info (mk_event [50] [66] []) = ([50], [66])"
    by (simp add: get_user_info_def mk_event_def)
  have u1: "get_user_info (mk_event [49] [65] []) = ([49], [65])"
    by (simp add: get_user_info_def mk_event_def)
  have c: "min_players (cfg_demo\<lparr>min_players := 1\<rparr>) = 1"
    "admin_ids (cfg_demo\<lparr>min_players := 1\<rparr>) = [[49]]"
    by (simp_all add: cfg_demo_def)
  from start_request [OF waiting_demo_facts(1) h2 h3, where cfg = "cfg_demo\<lparr>min_players := 1\<rparr>"]
  have a: "cmd_start_game (cfg_demo\<lparr>min_players := 1\<rparr>) (mk_event [50] [66] []) waiting_demo =
     (waiting_demo, [Send Unauthorized_start], Done)"
    by (simp add: waiting_demo_facts u2 c)
  from start_request [OF waiting_demo_facts(1) h2 h3',
      where cfg = "cfg_demo\<lparr>min_players := 1\<rparr>" and env = "\<lparr>pick = None, punish = Truth, now = 7\<rparr>"]
  have b: "cmd_start_game (cfg_demo\<lparr>min_players := 1\<rparr>) (mk_event [49] [65] []) waiting_demo =
     (waiting_demo, [Send (Starting [65])], Then_start_game [103])"
    and c: "status (heap (fst (start_game_begin \<lparr>pick = None, punish = Truth, now = 7\<rparr> [103] waiting_demo)) 0) = Playing"
    by (simp_all add: waiting_demo_facts u1 c upd_simps)
  show ?thesis using a b c by simp
qed

text \<open>
  C8 as the specification states it fails: with the roster below the minimum, a requester
  who is neither the creator nor an administrator is told that players are missing, not
  that the request is unauthorized.
\<close>

theorem start_too_few_before_unauthorized:
  "creator_id (heap waiting_demo 0) \<noteq> fst (get_user_info (mk_event [50] [66] [])) \<and>
   fst (get_user_info (mk_event [50] [66] [])) \<notin> set (admin_ids cfg_demo) \<and>
   cmd_start_game cfg_demo (mk_event [50] [66] []) waiting_demo =
     (waiting_demo, [Send (Too_few 2)], Done)"
proof -
  have h3: "get_group_id (mk_event [50] [66] []) = [103]"
    by (simp add: get_group_id_def mk_event_def)
  have u2: "get_user_info (mk_event [50] [66] []) = ([50], [66])"
    by (simp add: get_user_info_def mk_event_def)
  have "cmd_start_game cfg_demo (mk_event [50] [66] []) waiting_demo =
      (waiting_demo, [Send (Too_few 2)], Done)"
    using start_checks [OF waiting_demo_facts(1) _ h3 waiting_demo_facts(2), of cfg_demo]
    by (simp add: waiting_demo_facts cfg_demo_def)
  then show ?thesis by (simp add: u2 waiting_demo_facts cfg_demo_def)
qed

section \<open>Guesses\<close>

lemma upd_cancel_upd:
  "upd a f (cancel tt (upd a h s)) = upd a (\<lambda>x. f (h x)) (cancel tt s)"
  by (simp add: upd_def cancel_def split: option.splits task_state.splits)

lemma guess_outcome:
  assumes "sessions s g = Some a" and "g \<noteq> []" and "status (heap s a) = Playing"
    and "current_song (heap s a) = Some sg" and "song_name sg \<noteq> []"
    and "guesses lower ev g (song_name sg)"
  shows "on_message cfg lower ev s =
     (if round_answered (heap s a) then (s, [], Done)
      else
        (case map_of (participants (heap s a)) (fst (get_user_info ev)) of
           None \<Rightarrow> (s, [Send Join_first], Done)
         | Some d \<Rightarrow>
             (upd a (\<lambda>y. y\<lparr>round_answered := True,
                            participants := dict_set (fst (get_user_info ev))
                              (d\<lparr>score := score d + 1\<rparr>) (participants y)\<rparr>)
                (cancel (timeout_task (heap s a)) s),
              [Send (Correct (snd (get_user_info ev)) sg (score d + 1))],
              Then_next_round g)))"
proof -
  have key: "has_key (fst (get_user_info ev)) (participants (heap s a)) =
      (map_of (participants (heap s a)) (fst (get_user_info ev)) \<noteq> None)"
    by (rule has_key_map_of)
  have rw: "\<And>f h tt. upd a f (cancel tt (upd a h s)) = upd a (\<lambda>x. f (h x)) (cancel tt s)"
    by (rule upd_cancel_upd)
  show ?thesis
    using assms
    by (auto simp: on_message_def guesses_def Let_def key upd_simps rw split: option.splits)
qed

text \<open>
  C2. A guess is a message of the group without the join signal and without a command
  prefix that the matcher accepts for the title of the round. In a playing round with a
  song: once the round is answered, a guess changes nothing; a guess of a sender who is not
  enrolled changes nothing either (the round stays unanswered and open); the first guess
  of an enrolled sender marks the round answered, cancels the round's timer and adds
  exactly 1 to that sender's score, leaving every other participant's entry and the order
  of the roster as they were, and any guess that follows it changes nothing.
\<close>

theorem guess_credit:
  assumes "sessions s g = Some a" and "g \<noteq> []" and "status (heap s a) = Playing"
    and "current_song (heap s a) = Some sg" and "song_name sg \<noteq> []"
    and "guesses lower ev g (song_name sg)" and "guesses lower ev' g (song_name sg)"
  shows
    "(round_answered (heap s a) \<longrightarrow> on_message cfg lower ev s = (s, [], Done)) \<and>
     (\<not> round_answered (heap s a) \<and>
      map_of (participants (heap s a)) (fst (get_user_info ev)) = None \<longrightarrow>
        on_message cfg lower ev s = (s, [Send Join_first], Done)) \<and>
     (\<not> round_answered (heap s a) \<and>
      map_of (participants (heap s a)) (fst (get_user_info ev)) = Some d \<longrightarrow>
        on_message cfg lower ev s =
          (upd a (\<lambda>y. y\<lparr>round_answered := True,
                         participants := dict_set (fst (get_user_info ev))
                           (d\<lparr>score := score d + 1\<rparr>) (participants y)\<rparr>)
             (cancel (timeout_task (heap s a)) s),
           [Send (Correct (snd (get_user_info ev)) sg (score d + 1))],
           Then_next_round g) \<and>
        round_answered (heap (fst (on_message cfg lower ev s)) a) \<and>
        map_of (participants (heap (fst (on_message cfg lower ev s)) a)) (fst (get_user_info ev)) =
          Some (d\<lparr>score := score d + 1\<rparr>) \<and>
        (\<forall>u. u \<noteq> fst (get_user_info ev) \<longrightarrow>
           map_of (participants (heap (fst (on_message cfg lower ev s)) a)) u =
           map_of (participants (heap s a)) u) \<and>
        map fst (participants (heap (fst (on_message cfg lower ev s)) a)) =
          map fst (participants (heap s a)) \<and>
        on_message cfg lower ev' (fst (on_message cfg lower ev s)) =
          (fst (on_message cfg lower ev s), [], Done))"
proof -
  let ?u = "fst (get_user_info ev)"
  let ?ps = "participants (heap s a)"
  note out = guess_outcome [OF assms(1-6), of cfg]
  have answered: "on_message cfg lower ev s = (s, [], Done)" if "round_answered (heap s a)"
    using out that by simp
  have stranger: "on_message cfg lower ev s = (s, [Send Join_first], Done)"
    if "\<not> round_answered (heap s a)" and "map_of ?ps ?u = None"
    using out that by simp
  have credited:
    "on_message cfg lower ev s =
          (upd a (\<lambda>y. y\<lparr>round_answered := True,
                         participants := dict_set ?u (d\<lparr>score := score d + 1\<rparr>) (participants y)\<rparr>)
             (cancel (timeout_task (heap s a)) s),
           [Send (Correct (snd (get_user_info ev)) sg (score d + 1))],
           Then_next_round g) \<and>
        round_answered (heap (fst (on_message cfg lower ev s)) a) \<and>
        map_of (participants (heap (fst (on_message cfg lower ev s)) a)) ?u =
          Some (d\<lparr>score := score d + 1\<rparr>) \<and>
        (\<forall>u. u \<noteq> ?u \<longrightarrow>
           map_of (participants (heap (fst (on_message cfg lower ev s)) a)) u = map_of ?ps u) \<and>
        map fst (participants (heap (fst (on_message cfg lower ev s)) a)) = map fst ?ps \<and>
        on_message cfg lower ev' (fst (on_message cfg lower ev s)) =
          (fst (on_message cfg lower ev s), [], Done)"
    if open_round: "\<not> round_answered (heap s a)" and enrolled: "map_of ?ps ?u = Some d"
  proof -
    let ?s' = "upd a (\<lambda>y. y\<lparr>round_answered := True,
                         participants := dict_set ?u (d\<lparr>score := score d + 1\<rparr>) (participants y)\<rparr>)
             (cancel (timeout_task (heap s a)) s)"
    have eq: "on_message cfg lower ev s =
        (?s', [Send (Correct (snd (get_user_info ev)) sg (score d + 1))], Then_next_round g)"
      using out open_round enrolled by simp
    have s': "fst (on_message cfg lower ev s) = ?s'" using eq by simp
    have obj: "heap ?s' a = (heap s a)\<lparr>round_answered := True,
        participants := dict_set ?u (d\<lparr>score := score d + 1\<rparr>) ?ps\<rparr>"
      by (simp add: upd_simps cancel_simps)
    have tab: "sessions ?s' g = Some a" using assms(1) by (simp add: upd_simps cancel_simps)
    have key: "has_key ?u ?ps" using enrolled by (simp add: has_key_map_of)
    have st: "status (heap ?s' a) = Playing" using assms(3) by (simp add: obj)
    have cs: "current_song (heap ?s' a) = Some sg" using assms(4) by (simp add: obj)
    have ra: "round_answered (heap ?s' a)" by (simp add: obj)
    have later: "on_message cfg lower ev' ?s' = (?s', [], Done)"
      using guess_outcome [OF tab assms(2) st cs assms(5) assms(7), of cfg] ra by simp
    have mine: "map_of (participants (heap ?s' a)) ?u = Some (d\<lparr>score := score d + 1\<rparr>)"
      by (simp add: obj map_of_dict_set)
    have others: "\<forall>u. u \<noteq> ?u \<longrightarrow> map_of (participants (heap ?s' a)) u = map_of ?ps u"
      by (simp add: obj map_of_dict_set)
    have order: "map fst (participants (heap ?s' a)) = map fst ?ps"
      using key by (simp add: obj keys_dict_set)
    show ?thesis unfolding s' using eq ra mine others order later by blast
  qed
  show ?thesis using answered stranger credited by blast
qed

theorem guess_credit_witness:
  "round_answered (heap (fst (on_message cfg_demo lower_ascii
       (mk_event [50] [66] [22909, 21916, 27426]) demo)) 0) \<and>
   participants (heap (fst (on_message cfg_demo lower_ascii
       (mk_event [50] [66] [22909, 21916, 27426]) demo)) 0) =
     [([49], \<lparr>name = [65], score = 0\<rparr>), ([50], \<lparr>name = [66], score = 1\<rparr>)] \<and>
   on_message cfg_demo lower_ascii (mk_event [49] [65] [22909, 21916, 27426])
       (fst (on_message cfg_demo lower_ascii (mk_event [50] [66] [22909, 21916, 27426]) demo)) =
     (fst (on_message cfg_demo lower_ascii (mk_event [50] [66] [22909, 21916, 27426]) demo),
      [], Done) \<and>
   on_message cfg_demo lower_ascii (mk_event [51] [67] [22909, 21916, 27426]) demo =
     (demo, [Send Join_first], Done)"
proof -
  let ?bob = "mk_event [50] [66] [22909, 21916, 27426]"
  let ?alice = "mk_event [49] [65] [22909, 21916, 27426]"
  let ?carol = "mk_event [51] [67] [22909, 21916, 27426]"
  have h1: "sessions demo [103] = Some 0" by (simp add: demo_def)
  have h2: "[103] \<noteq> ([]::ustr)" by simp
  have h3: "status (heap demo 0) = Playing" by (simp add: demo_def demo_session_def)
  have h4: "current_song (heap demo 0) = Some song_b" by (simp add: demo_def demo_session_def)
  have h5: "song_name song_b \<noteq> []" by (simp add: song_b_def)
  have g: "guesses lower_ascii (mk_event u n [22909, 21916, 27426]) [103] (song_name song_b)"
    for u n
    by (simp add: guesses_def get_group_id_def mk_event_def strip_def py_isspace_def
        note_emoji_def check_answer_def song_b_def)
  have d: "participants (heap demo 0) =
       [([49], \<lparr>name = [65], score = 0\<rparr>), ([50], \<lparr>name = [66], score = 0\<rparr>)]"
    by (simp add: demo_def demo_session_def)
  have pre_bob: "\<not> round_answered (heap demo 0) \<and>
      map_of (participants (heap demo 0)) (fst (get_user_info ?bob)) =
        Some \<lparr>name = [66], score = 0\<rparr>"
    by (simp add: demo_def demo_session_def get_user_info_def mk_event_def)
  have pre_carol: "\<not> round_answered (heap demo 0) \<and>
      map_of (participants (heap demo 0)) (fst (get_user_info ?carol)) = None"
    by (simp add: demo_def demo_session_def get_user_info_def mk_event_def)
  note bob = guess_credit [OF h1 h2 h3 h4 h5 g [of "[50]" "[66]"] g [of "[49]" "[65]"],
      where cfg = cfg_demo and d = "\<lparr>name = [66], score = 0\<rparr>"]
  note carol = guess_credit [OF h1 h2 h3 h4 h5 g [of "[51]" "[67]"] g [of "[49]" "[65]"],
      where cfg = cfg_demo and d = "\<lparr>name = [66], score = 0\<rparr>"]
  have r1: "round_answered (heap (fst (on_message cfg_demo lower_ascii ?bob demo)) 0)"
    using bob pre_bob by blast
  have r2: "fst (on_message cfg_demo lower_ascii ?bob demo) =
      upd 0 (\<lambda>y. y\<lparr>round_answered := True,
                     participants := dict_set (fst (get_user_info ?bob))
                       (\<lparr>name = [66], score = 0\<rparr>\<lparr>score := score \<lparr>name = [66], score = 0\<rparr> + 1\<rparr>)
                       (participants y)\<rparr>)
        (cancel (timeout_task (heap demo 0)) demo)"
    using bob pre_bob by simp
  have r3: "on_message cfg_demo lower_ascii ?alice (fst (on_message cfg_demo lower_ascii ?bob demo)) =
      (fst (on_message cfg_demo lower_ascii ?bob demo), [], Done)"
    using bob pre_bob by blast
  have r4: "on_message cfg_demo lower_ascii ?carol demo = (demo, [Send Join_first], Done)"
    using carol pre_carol by blast
  have r5: "participants (heap (fst (on_message cfg_demo lower_ascii ?bob demo)) 0) =
      [([49], \<lparr>name = [65], score = 0\<rparr>), ([50], \<lparr>name = [66], score = 1\<rparr>)]"
    unfolding r2 by (simp add: upd_simps cancel_simps d get_user_info_def mk_event_def)
  show ?thesis using r1 r3 r4 r5 by simp
qed

section \<open>Settlement\<close>



lemma save_scores_effects:
  "snd (save_scores g xs s) = map (\<lambda>x. Save_stats g) (filter (\<lambda>x. 0 < score (snd x)) xs)"
  by (induction xs arbitrary: s) (simp_all add: Let_def)

lemma save_scores_other_group:
  "g' \<noteq> g \<Longrightarrow> stats (fst (save_scores g xs s)) g' = stats s g'"
  by (induction xs arbitrary: s) (simp_all add: Let_def add_score_def)

lemma save_scores_absent:
  "u \<notin> fst ` set xs \<Longrightarrow> stats (fst (save_scores g xs s)) g u = stats s g u"
  by (induction xs arbitrary: s) (auto simp: Let_def add_score_def)

lemma add_score_entry:
  "stats (add_score g u (name d) (score d) s) g u = Some (merged (stats s g u) d)"
  by (simp add: add_score_def Let_def merged_def split: option.splits)

lemma save_scores_ledger:
  assumes "distinct (map fst xs)"
  shows "stats (fst (save_scores g xs s)) g u =
     (case map_of xs u of
        None \<Rightarrow> stats s g u
      | Some d \<Rightarrow> if 0 < score d then Some (merged (stats s g u) d) else stats s g u)"
  using assms
proof (induction xs arbitrary: s)
  case Nil
  then show ?case by simp
next
  case (Cons x xs)
  then have d: "distinct (map fst xs)" and fresh: "fst x \<notin> fst ` set xs" by auto
  show ?case
  proof (cases "u = fst x")
    case True
    then have absent: "u \<notin> fst ` set xs" using fresh by simp
    show ?thesis
      using True absent
      by (simp add: Let_def save_scores_absent add_score_entry)
  next
    case False
    have other: "stats (add_score g (fst x) n p s) g u = stats s g u" for n p
      using False by (simp add: add_score_def Let_def)
    show ?thesis
      using False Cons.IH [OF d] by (simp add: Let_def other split: option.splits)
  qed
qed





lemma sorted_scores_perm: "mset (sorted_scores ps) = mset ps"
  by (simp add: sorted_scores_def)

lemma sorted_scores_nonempty: "ps \<noteq> [] \<Longrightarrow> sorted_scores ps \<noteq> []"
proof -
  have "length (sorted_scores ps) = length ps" by (simp add: sorted_scores_def)
  then show "ps \<noteq> [] \<Longrightarrow> sorted_scores ps \<noteq> []" by (metis length_0_conv)
qed

lemma sorted_scores_desc:
  "sorted_wrt (\<lambda>x y. score (snd y) \<le> score (snd x)) (sorted_scores ps)"
proof -
  have "sorted (map (\<lambda>x. - score (snd x)) (sort_key (\<lambda>x. - score (snd x)) ps))"
    by (rule sorted_sort_key)
  then show ?thesis by (simp add: sorted_scores_def sorted_map)
qed

lemma sorted_scores_stable:
  "filter (\<lambda>x. score (snd x) = k) (sorted_scores ps) = filter (\<lambda>x. score (snd x) = k) ps"
proof -
  have "filter (\<lambda>y. - score (snd y) = - k) (sort_key (\<lambda>x. - score (snd x)) ps) =
      filter (\<lambda>y. - score (snd y) = - k) ps"
    by (rule sort_key_stable)
  then show ?thesis by (simp add: sorted_scores_def)
qed

lemma map_of_sorted_scores:
  assumes "distinct (map fst ps)"
  shows "map_of (sorted_scores ps) = map_of ps"
proof -
  have "mset (map fst (sorted_scores ps)) = mset (map fst ps)"
    by (simp add: sorted_scores_perm)
  then have d: "distinct (map fst (sorted_scores ps))"
    using assms by (metis mset_eq_imp_distinct_iff)
  have "set (sorted_scores ps) = set ps" by (simp add: sorted_scores_def)
  then show ?thesis using assms d by (intro map_of_inject_set [THEN iffD2]) auto
qed

lemma desc_last_least:
  "sorted_wrt (\<lambda>x y. f y \<le> f x) xs \<Longrightarrow> x \<in> set xs \<Longrightarrow> (f (last xs) :: int) \<le> f x"
  by (induction xs) (auto split: if_splits)

lemma desc_hd_greatest:
  "sorted_wrt (\<lambda>x y. f y \<le> f x) xs \<Longrightarrow> x \<in> set xs \<Longrightarrow> (f x :: int) \<le> f (hd xs)"
  by (cases xs) auto

lemma last_sorted_scores:
  assumes "ps \<noteq> []"
  shows "score (snd (last (sorted_scores ps))) = Min (set (map (\<lambda>x. score (snd x)) ps))"
proof -
  have ne: "sorted_scores ps \<noteq> []" using assms by (rule sorted_scores_nonempty)
  have st: "set (sorted_scores ps) = set ps" by (simp add: sorted_scores_def)
  have mem: "last (sorted_scores ps) \<in> set ps" using ne st last_in_set by blast
  have least: "score (snd (last (sorted_scores ps))) \<le> score (snd x)" if "x \<in> set ps" for x
    using desc_last_least [OF sorted_scores_desc, of x ps] that st by simp
  show ?thesis
  proof (rule sym, rule Min_eqI)
    show "finite (set (map (\<lambda>x. score (snd x)) ps))" by simp
    show "score (snd (last (sorted_scores ps))) \<le> y"
      if "y \<in> set (map (\<lambda>x. score (snd x)) ps)" for y
      using that least by auto
    show "score (snd (last (sorted_scores ps))) \<in> set (map (\<lambda>x. score (snd x)) ps)"
      using mem by auto
  qed
qed

lemma hd_sorted_scores:
  assumes "ps \<noteq> []"
  shows "score (snd (hd (sorted_scores ps))) = Max (set (map (\<lambda>x. score (snd x)) ps))"
proof -
  have ne: "sorted_scores ps \<noteq> []" using assms by (rule sorted_scores_nonempty)
  have st: "set (sorted_scores ps) = set ps" by (simp add: sorted_scores_def)
  have mem: "hd (sorted_scores ps) \<in> set ps" using ne st hd_in_set by blast
  have greatest: "score (snd x) \<le> score (snd (hd (sorted_scores ps)))" if "x \<in> set ps" for x
    using desc_hd_greatest [OF sorted_scores_desc, of x ps] that st by simp
  show ?thesis
  proof (rule sym, rule Max_eqI)
    show "finite (set (map (\<lambda>x. score (snd x)) ps))" by simp
    show "y \<le> score (snd (hd (sorted_scores ps)))"
      if "y \<in> set (map (\<lambda>x. score (snd x)) ps)" for y
      using that greatest by auto
    show "score (snd (hd (sorted_scores ps))) \<in> set (map (\<lambda>x. score (snd x)) ps)"
      using mem by auto
  qed
qed

lemma challenge_of_ranking:
  assumes "2 \<le> length ps"
  shows "challenge_of (sorted_scores ps) p =
     Some (let m = Min (set (map (\<lambda>x. score (snd x)) ps));
               losers = filter (\<lambda>x. score (snd x) = m) ps;
               winner = hd (sorted_scores ps)
           in if length losers = 1 then Nominate winner (hd losers) p
              else Winner_picks winner losers p)"
proof -
  have ne: "ps \<noteq> []" using assms by auto
  have len: "2 \<le> length (sorted_scores ps)" using assms by (simp add: sorted_scores_def)
  show ?thesis
    using len
    by (simp add: challenge_of_def Let_def last_sorted_scores [OF ne] sorted_scores_stable)
qed

lemma challenge_of_none: "(challenge_of (sorted_scores ps) p = None) = (length ps < 2)"
  by (auto simp: challenge_of_def Let_def sorted_scores_def)

text \<open>
  C9. On a session whose roster is not empty (a dict: its keys are distinct), the settlement
  ranks the participants by score, highest first, keeping the order of the roster among
  equal scores. For exactly the participants with a positive score it merges the entry of
  the group's ledger (one save each): the session score is added to the total, the win count
  grows by one, the stored name becomes the participant's; every other entry, and every
  other group's ledger, stays. A challenge is part of the message exactly when there are at
  least two participants: it names the first of the ranking, a highest scorer, as winner;
  when one participant alone has the lowest score, that participant is nominated, otherwise
  the winner is asked to pick among all who have the lowest score.
\<close>

theorem settlement:
  assumes "sessions s g = Some a" and "participants (heap s a) = ps" and "ps \<noteq> []"
    and "distinct (map fst ps)"
  shows
    "fst (snd (end_game_begin env g s)) =
       map (\<lambda>x. Save_stats g) (filter (\<lambda>x. 0 < score (snd x)) (sorted_scores ps)) @
       [Send (Settlement (round_num (heap s a)) (sorted_scores ps)
                (challenge_of (sorted_scores ps) (punish env)))] \<and>
     mset (sorted_scores ps) = mset ps \<and>
     sorted_wrt (\<lambda>x y. score (snd y) \<le> score (snd x)) (sorted_scores ps) \<and>
     (\<forall>k. filter (\<lambda>x. score (snd x) = k) (sorted_scores ps) =
          filter (\<lambda>x. score (snd x) = k) ps) \<and>
     (\<forall>u. stats (fst (end_game_begin env g s)) g u =
          (case map_of ps u of
             None \<Rightarrow> stats s g u
           | Some d \<Rightarrow> if 0 < score d then Some (merged (stats s g u) d) else stats s g u)) \<and>
     (\<forall>g'. g' \<noteq> g \<longrightarrow> stats (fst (end_game_begin env g s)) g' = stats s g') \<and>
     (challenge_of (sorted_scores ps) (punish env) = None) = (length ps < 2) \<and>
     (2 \<le> length ps \<longrightarrow>
        challenge_of (sorted_scores ps) (punish env) =
          Some (let m = Min (set (map (\<lambda>x. score (snd x)) ps));
                    losers = filter (\<lambda>x. score (snd x) = m) ps;
                    winner = hd (sorted_scores ps)
                in if length losers = 1 then Nominate winner (hd losers) (punish env)
                   else Winner_picks winner losers (punish env)) \<and>
        score (snd (hd (sorted_scores ps))) = Max (set (map (\<lambda>x. score (snd x)) ps)))"
proof -
  let ?s2 = "upd a (\<lambda>x. x\<lparr>status := Ended\<rparr>) (cancel (timeout_task (heap s a)) s)"
  have ne: "participants (heap s a) \<noteq> []" using assms(2,3) by simp
  have eg: "end_game_begin env g s =
     (fst (save_scores g (sorted_scores ps) ?s2),
      snd (save_scores g (sorted_scores ps) ?s2) @
        [Send (Settlement (round_num (heap s a)) (sorted_scores ps)
                 (challenge_of (sorted_scores ps) (punish env)))],
      Then_del g)"
    using end_game_begin_ranks [OF assms(1) ne, of env] assms(2) by simp
  have st2: "stats ?s2 = stats s" by (simp add: upd_simps cancel_simps)
  have dk: "distinct (map fst (sorted_scores ps))"
  proof -
    have "mset (map fst (sorted_scores ps)) = mset (map fst ps)"
      by (simp add: sorted_scores_perm)
    then show ?thesis using assms(4) by (metis mset_eq_imp_distinct_iff)
  qed
  have effects: "fst (snd (end_game_begin env g s)) =
       map (\<lambda>x. Save_stats g) (filter (\<lambda>x. 0 < score (snd x)) (sorted_scores ps)) @
       [Send (Settlement (round_num (heap s a)) (sorted_scores ps)
                (challenge_of (sorted_scores ps) (punish env)))]"
    by (simp add: eg save_scores_effects)
  have ledger: "stats (fst (end_game_begin env g s)) g u =
          (case map_of ps u of
             None \<Rightarrow> stats s g u
           | Some d \<Rightarrow> if 0 < score d then Some (merged (stats s g u) d) else stats s g u)"
    for u
    using save_scores_ledger [OF dk, of g ?s2 u]
    by (simp add: eg st2 map_of_sorted_scores [OF assms(4)] split: option.splits)
  have others: "stats (fst (end_game_begin env g s)) g' = stats s g'" if "g' \<noteq> g" for g'
    using save_scores_other_group [OF that, of "sorted_scores ps" ?s2] by (simp add: eg st2)
  have top: "score (snd (hd (sorted_scores ps))) = Max (set (map (\<lambda>x. score (snd x)) ps))"
    by (rule hd_sorted_scores [OF assms(3)])
  show ?thesis
    using effects sorted_scores_perm [of ps] sorted_scores_desc [of ps] sorted_scores_stable [of _ ps]
      ledger others challenge_of_none [of ps "punish env"]
      challenge_of_ranking [of ps "punish env"] top
    by blast
qed

theorem settlement_witness:
  "sorted_scores (participants (heap scored_demo 0)) = participants (heap scored_demo 0) \<and>
   challenge_of (sorted_scores (participants (heap scored_demo 0))) Dare =
     Some (Nominate ([49], \<lparr>name = [65], score = 3\<rparr>) ([51], \<lparr>name = [67], score = 0\<rparr>) Dare) \<and>
   stats (fst (end_game_begin \<lparr>pick = None, punish = Dare, now = 0\<rparr> [103] scored_demo)) [103] [49] =
     Some \<lparr>nickname = [65], total = 3, wins = 1\<rparr> \<and>
   stats (fst (end_game_begin \<lparr>pick = None, punish = Dare, now = 0\<rparr> [103] scored_demo)) [103] [51] =
     None"
proof -
  let ?ps = "[([49], \<lparr>name = [65], score = 3\<rparr>), ([50], \<lparr>name = [66], score = 3\<rparr>),
       ([51::nat], \<lparr>name = [67::nat], score = 0\<rparr>)]"
  let ?env = "\<lparr>pick = None, punish = Dare, now = 0\<rparr>"
  have h1: "sessions scored_demo [103] = Some 0"
    by (simp add: scored_demo_def upd_simps demo_def)
  have h2: "participants (heap scored_demo 0) = ?ps"
    by (simp add: scored_demo_def upd_simps)
  have h3: "?ps \<noteq> []" by simp
  have h4: "distinct (map fst ?ps)" by simp
  have old: "stats scored_demo [103] = Map.empty"
    by (simp add: scored_demo_def upd_simps demo_def)
  have rank: "sorted_scores ?ps = ?ps" by (simp add: sorted_scores_def)
  have mn: "Min (set (map (\<lambda>x. score (snd x)) ?ps)) = 0" by simp
  note T = settlement [OF h1 h2 h3 h4, of ?env]
  have led: "stats (fst (end_game_begin ?env [103] scored_demo)) [103] u =
          (case map_of ?ps u of
             None \<Rightarrow> stats scored_demo [103] u
           | Some d \<Rightarrow> if 0 < score d then Some (merged (stats scored_demo [103] u) d)
                       else stats scored_demo [103] u)" for u
    using T by blast
  have ch: "challenge_of (sorted_scores ?ps) (punish ?env) =
          Some (let m = Min (set (map (\<lambda>x. score (snd x)) ?ps));
                    losers = filter (\<lambda>x. score (snd x) = m) ?ps;
                    winner = hd (sorted_scores ?ps)
                in if length losers = 1 then Nominate winner (hd losers) (punish ?env)
                   else Winner_picks winner losers (punish ?env))"
    using T by simp
  have c1: "challenge_of (sorted_scores ?ps) Dare =
     Some (Nominate ([49], \<lparr>name = [65], score = 3\<rparr>) ([51], \<lparr>name = [67], score = 0\<rparr>) Dare)"
    using ch by (simp add: rank mn Let_def)
  have l1: "stats (fst (end_game_begin ?env [103] scored_demo)) [103] [49] =
     Some \<lparr>nickname = [65], total = 3, wins = 1\<rparr>"
    by (simp add: led [of "[49]"] old merged_def)
  have l2: "stats (fst (end_game_begin ?env [103] scored_demo)) [103] [51] = None"
    by (simp add: led [of "[51]"] old)
  show ?thesis using rank c1 l1 l2 by (simp add: h2)
qed

section \<open>The round limit\<close>
































lemmas model_defs = exec_def handler_def resume_def suspend_def cmd_create_game_def
  cmd_start_game_def cmd_answer_def on_message_def start_game_begin_def next_round_begin_def
  next_round_song_def next_round_arm_def end_game_begin_def Let_def get_group_id_def
  get_user_info_def mk_event_def session_of_def init_def new_session_def upd_def cancel_def
  strip_def py_isspace_def note_emoji_def has_key_def cfg_demo_def cfg_long_def env_a_def
  env_b_def check_answer_def lower_ascii_def replace_space_def song_a_def song_b_def







section \<open>The end of a round\<close>

lemma accepted_guess_cancels_timer:
  assumes "sessions s g = Some a" and "g \<noteq> []" and "status (heap s a) = Playing"
    and "current_song (heap s a) = Some sg" and "song_name sg \<noteq> []"
    and "guesses lower ev g (song_name sg)" and "\<not> round_answered (heap s a)"
    and "map_of (participants (heap s a)) (fst (get_user_info ev)) = Some d"
    and "timeout_task (heap s a) = Some t" and "tasks s t = Alive k"
  shows "tasks (fst (on_message cfg lower ev s)) t = Cancelled \<and>
    exec cfg lower env (Resume t) (fst (on_message cfg lower ev s)) = None"
proof -
  have "tasks (fst (on_message cfg lower ev s)) t = Cancelled"
    using guess_outcome [OF assms(1-6), of cfg] assms(7-10)
    by (simp add: upd_simps cancel_def)
  then show ?thesis by (simp add: exec_def)
qed

text \<open>
  C1, at the failing input. Alice creates a game, Bob joins, Alice starts it and round 1
  is presented. Bob's correct guess is accepted; while his handler pauses before the
  advance, the administrator Alice sends the reveal command, which is accepted as well.
  Both handlers then advance the round: the run ends in round 3 after a single answered
  round, with the presentations of rounds 2 and 3 sent one after the other.
\<close>

theorem reveal_after_guess_advances_twice:
  "map_option (\<lambda>r. (round_num (heap (fst r) 0), snd r))
     (run cfg_long lower_ascii reveal_race init) =
   Some (3, [Send (Created [65]), Send (Joined [66] 2), Send (Starting [65]),
             Send (Game_start 2 [[65], [66]]), Pick_song, Send (Round_clip 1 5 song_b),
             Send (Correct [66] song_b 1), Send (Reveal song_b),
             Pick_song, Send (Round_clip 2 5 song_a),
             Pick_song, Send (Round_clip 3 5 song_b)])"
  by (simp add: reveal_race_def first_round_def model_defs)

end
